theory Spec2Isabelle
  imports Main "HOL-Library.Word"
begin

section \<open>Data model of the Cray burst buffer plugin\<close>

text \<open>
  The development embeds parts of \<^verbatim>\<open>src/plugins/burst_buffer/cray/burst_buffer_cray.c\<close>.
  C integers are machine words: \<^verbatim>\<open>uint32_t\<close> is \<open>32 word\<close>, \<^verbatim>\<open>uint64_t\<close> and
  \<^verbatim>\<open>int64_t\<close> are \<open>64 word\<close> (arithmetic wraps; an \<^verbatim>\<open>int64_t\<close> comparison is the
  signed \<open><s\<close>, \<open>\<le>s\<close>; a comparison with an unsigned operand is the unsigned \<open><\<close>),
  \<^verbatim>\<open>int\<close> is \<open>32 word\<close> read as signed, \<^verbatim>\<open>time_t\<close> is a signed \<open>64 word\<close>.
  A \<^verbatim>\<open>char *\<close> that the code tests against \<^verbatim>\<open>NULL\<close> or compares with
  \<^verbatim>\<open>xstrcmp\<close> is a \<open>string option\<close>; one that it hands to \<^verbatim>\<open>strcmp\<close> is a \<open>string\<close>.
\<close>

type_synonym u16 = "16 word"
type_synonym u32 = "32 word"
type_synonym u64 = "64 word"
type_synonym s64 = "64 word"
type_synonym c_int = "32 word"
type_synonym time_t = "64 word"

text \<open>
  The \<^verbatim>\<open>BB_STATE_*\<close> constants come from \<^verbatim>\<open>slurm.h\<close>; the functions embedded here
  only assign them and compare them for equality.
\<close>

datatype bb_state_code =
    BB_STATE_PENDING | BB_STATE_ALLOCATING | BB_STATE_ALLOCATED
  | BB_STATE_DELETING | BB_STATE_DELETED
  | BB_STATE_STAGING_IN | BB_STATE_STAGED_IN | BB_STATE_RUNNING
  | BB_STATE_STAGING_OUT | BB_STATE_STAGED_OUT
  | BB_STATE_TEARDOWN | BB_STATE_COMPLETE

text \<open>\<^verbatim>\<open>bb_gres_t\<close>: one generic resource requested by a job.\<close>

record bb_gres =
  bg_name :: string
  bg_count :: u64

text \<open>\<^verbatim>\<open>burst_buffer_gres_t\<close>: a generic resource pool, or the share of it held by a buffer.\<close>

record burst_buffer_gres =
  bbg_avail_cnt :: u64
  bbg_granularity :: u64
  bbg_name :: string
  bbg_used_cnt :: u64

text \<open>\<^verbatim>\<open>needed_gres_t\<close> (lines 153-157).\<close>

record needed_gres =
  ng_name :: string
  add_cnt :: u64
  avail_cnt :: u64

text \<open>\<^verbatim>\<open>bb_alloc_t\<close>: an allocation record of the buffer registry.\<close>

record bb_alloc =
  ba_account :: "string option"
  ba_cancelled :: bool
  ba_create_time :: time_t
  ba_end_time :: time_t
  ba_gres_ptr :: "burst_buffer_gres list"
  ba_job_id :: u32
  ba_name :: "string option"
  ba_partition :: "string option"
  ba_qos :: "string option"
  ba_seen_time :: time_t
  ba_size :: u64
  ba_state :: bb_state_code
  ba_state_time :: time_t
  ba_use_time :: time_t
  ba_user_id :: u32

text \<open>\<^verbatim>\<open>bb_buf_t\<close>: one persistent sub-request of a job.\<close>

record bb_buf =
  buf_access :: "string option"
  buf_destroy :: bool
  buf_hurry :: bool
  buf_name :: string
  buf_size :: u64
  buf_state :: bb_state_code
  buf_type :: "string option"

text \<open>\<^verbatim>\<open>bb_job_t\<close>: the cached job descriptor.\<close>

record bb_job =
  bj_account :: "string option"
  bj_buf_ptr :: "bb_buf list"
  bj_gres_ptr :: "bb_gres list"
  bj_job_id :: u32
  bj_partition :: "string option"
  bj_persist_add :: u64
  bj_qos :: "string option"
  bj_state :: bb_state_code
  bj_swap_size :: u32
  bj_swap_nodes :: u32
  bj_total_size :: u64
  bj_user_id :: u32

text \<open>The fields of the scheduler's \<^verbatim>\<open>struct job_record\<close> that the plugin reads or writes.\<close>

datatype state_reason_code = WAIT_NO_REASON | FAIL_BURST_BUFFER_OP | FAIL_BAD_CONSTRAINTS

record job_record =
  job_id :: u32
  user_id :: u32
  start_time :: time_t
  burst_buffer :: "string option"
  account :: "string option"
  part_name :: "string option"
  qos_name :: "string option"
  job_pending :: bool
  priority :: u32
  state_reason :: state_reason_code
  state_desc :: "string option"

text \<open>\<^verbatim>\<open>burst_buffer_info_t\<close>: one entry of an advanced reservation's burst buffer message.\<close>

record burst_buffer_info =
  bi_name :: "string option"
  bi_used_space :: u64
  bi_gres_ptr :: "burst_buffer_gres list"

text \<open>\<^verbatim>\<open>struct preempt_bb_recs\<close>; \<open>bb_ptr\<close> is the address of the allocation record.\<close>

record preempt_bb_recs =
  bb_ptr :: nat
  p_job_id :: u32
  p_size :: u64
  p_use_time :: time_t
  p_user_id :: u32

text \<open>The fields of \<^verbatim>\<open>bb_config_t\<close> in use; \<open>emulate_cray\<close> is the flag bit
  \<^verbatim>\<open>BB_FLAG_EMULATE_CRAY\<close> of \<^verbatim>\<open>flags\<close>.\<close>

record bb_config =
  debug_flag :: bool
  emulate_cray :: bool
  granularity :: u64
  gres_ptr :: "burst_buffer_gres list"
  user_size_limit :: u64

text \<open>
  Work handed to a detached thread (\<^verbatim>\<open>pthread_create\<close>) is recorded as a task in the order of
  the calls; a call of \<^verbatim>\<open>bb_limit_add\<close> or \<^verbatim>\<open>bb_limit_rem\<close> is recorded in a trace with
  its arguments (user, account, partition, qos, size).
\<close>

datatype task =
    Teardown u32 u32 bool
  | CreatePersistent u32 u32 string u64
  | DestroyPersistent u32 u32 string bool

datatype limit_op =
    LimitAdd u32 "string option" "string option" "string option" u64
  | LimitRem u32 "string option" "string option" "string option" u64

text \<open>
  The plugin's global \<^verbatim>\<open>bb_state\<close> together with the scheduler's job table. The allocation
  records live in \<open>heap\<close>, a store from addresses to records; \<open>bb_ahash i\<close> is the chain of
  addresses linked from hash bucket \<open>i\<close>, in the order of the \<^verbatim>\<open>next\<close> pointers.
  \<^verbatim>\<open>BB_HASH_SIZE\<close> is defined in \<^verbatim>\<open>burst_buffer_common.h\<close>, which is not among the sources:
  the table size is the field \<open>hash_size\<close>. \<open>next_addr\<close> is the address that the next
  \<^verbatim>\<open>xmalloc\<close> of an allocation record returns. \<open>bb_uhash u\<close> is the \<^verbatim>\<open>size\<close> field of the
  user record that \<^verbatim>\<open>bb_find_user_rec\<close> returns for user \<open>u\<close>.
\<close>

record world =
  cfg :: bb_config
  bb_name :: "string option"
  used_space :: u64
  total_space :: u64
  last_load_time :: time_t
  hash_size :: nat
  bb_ahash :: "nat \<Rightarrow> nat list"
  heap :: "nat \<rightharpoonup> bb_alloc"
  next_addr :: nat
  bb_jhash :: "u32 \<rightharpoonup> bb_job"
  bb_uhash :: "u32 \<Rightarrow> u64"
  jobs :: "u32 \<rightharpoonup> job_record"
  limit_log :: "limit_op list"
  spawned :: "task list"

text \<open>
  Collaborators of \<^verbatim>\<open>_test_size_limit\<close> that are defined outside the file are parameters:
  \<^verbatim>\<open>bb_limit_test\<close> (applied to user, account, partition, qos and size),
  \<^verbatim>\<open>bb_granularity\<close>, \<^verbatim>\<open>list_sort\<close> with \<^verbatim>\<open>bb_preempt_queue_sort\<close>, the message returned
  by \<^verbatim>\<open>job_test_bb_resv\<close> and the value of \<^verbatim>\<open>time(NULL)\<close> during the call.
\<close>

record env =
  bb_limit_test :: "u32 \<Rightarrow> string option \<Rightarrow> string option \<Rightarrow> string option \<Rightarrow> u64 \<Rightarrow> int"
  bb_granularity :: "u64 \<Rightarrow> u64 \<Rightarrow> u64"
  list_sort :: "preempt_bb_recs list \<Rightarrow> preempt_bb_recs list"
  job_test_bb_resv :: "burst_buffer_info list option"
  time_now :: time_t

definition NO_VAL64 :: u64 where
  "NO_VAL64 = 0xfffffffffffffffe"


section \<open>The admission test \<^verbatim>\<open>_test_size_limit\<close> (lines 1715-1934)\<close>

text \<open>Lines 1747-1758: the space of reservations whose buffer name is the plugin's name.\<close>

fun resv_space_sum :: "(u64 \<Rightarrow> u64 \<Rightarrow> u64) \<Rightarrow> u64 \<Rightarrow> string option \<Rightarrow> burst_buffer_info list \<Rightarrow> s64" where
  "resv_space_sum gran g nm [] = 0"
| "resv_space_sum gran g nm (b # bs) =
     (if bi_name b \<noteq> nm then resv_space_sum gran g nm bs
      else gran (bi_used_space b) g + resv_space_sum gran g nm bs)"

text \<open>\<^verbatim>\<open>_get_bb_resv\<close> (lines 1683-1705).\<close>

fun gres_used_sum :: "string \<Rightarrow> burst_buffer_gres list \<Rightarrow> u64" where
  "gres_used_sum gres_name [] = 0"
| "gres_used_sum gres_name (g # gs) =
     (if gres_name = bbg_name g then bbg_used_cnt g + gres_used_sum gres_name gs
      else gres_used_sum gres_name gs)"

fun bb_resv_sum :: "string option \<Rightarrow> string \<Rightarrow> burst_buffer_info list \<Rightarrow> u64" where
  "bb_resv_sum nm gres_name [] = 0"
| "bb_resv_sum nm gres_name (b # bs) =
     (if bi_name b \<noteq> None \<and> bi_name b \<noteq> nm then bb_resv_sum nm gres_name bs
      else gres_used_sum gres_name (bi_gres_ptr b) + bb_resv_sum nm gres_name bs)"

definition get_bb_resv :: "string option \<Rightarrow> string \<Rightarrow> burst_buffer_info list option \<Rightarrow> u64" where
  "get_bb_resv nm gres_name resv_bb =
     (case resv_bb of None \<Rightarrow> 0 | Some bs \<Rightarrow> bb_resv_sum nm gres_name bs)"

text \<open>The inner loop of lines 1773-1800 stops at the first configured pool of that name.\<close>

fun find_gres :: "string \<Rightarrow> burst_buffer_gres list \<Rightarrow> burst_buffer_gres option" where
  "find_gres nm [] = None"
| "find_gres nm (c # cs) = (if nm = bbg_name c then Some c else find_gres nm cs)"

text \<open>
  Lines 1771-1812, the loop over the job's generic resources. The result is
  \<open>(ok, gres, needed)\<close>: \<open>ok\<close> is false when the loop leaves the function with
  \<^verbatim>\<open>return 1\<close>, \<open>gres\<close> is the job's \<^verbatim>\<open>gres_ptr\<close> array as the loop leaves it, and
  \<open>needed\<close> is \<^verbatim>\<open>needed_gres_ptr\<close> (\<^verbatim>\<open>xmalloc\<close> has zeroed it).
\<close>

fun scan_gres :: "(u64 \<Rightarrow> u64 \<Rightarrow> u64) \<Rightarrow> burst_buffer_gres list \<Rightarrow> string option
    \<Rightarrow> burst_buffer_info list option \<Rightarrow> bb_gres list \<Rightarrow> bool \<times> bb_gres list \<times> needed_gres list" where
  "scan_gres gran cf nm resv_bb [] = (True, [], [])"
| "scan_gres gran cf nm resv_bb (g # gs) =
     (case find_gres (bg_name g) cf of
        None \<Rightarrow> (False, g # gs, [])
      | Some c \<Rightarrow>
          let tmp_g = gran (bg_count g) (bbg_granularity c);
              g' = g\<lparr>bg_count := tmp_g\<rparr>
          in if bbg_avail_cnt c < tmp_g then (False, g' # gs, [])
             else
               let tmp_r = get_bb_resv nm (bg_name g) resv_bb;
                   tmp_f = bbg_avail_cnt c - bbg_used_cnt c - tmp_r;
                   n = \<lparr>ng_name = bg_name g,
                        add_cnt = (if tmp_f <s tmp_g then tmp_g - tmp_f else 0),
                        avail_cnt = 0\<rparr>
               in case scan_gres gran cf nm resv_bb gs of
                    (ok, gs', ns) \<Rightarrow> (ok, g' # gs', n # ns))"

text \<open>\<^verbatim>\<open>add_total_gres_needed\<close> after the loop: the sum of the \<^verbatim>\<open>add_cnt\<close> fields.\<close>

definition gres_needed_total :: "needed_gres list \<Rightarrow> s64" where
  "gres_needed_total ns = sum_list (map add_cnt ns)"

text \<open>Line 1735 and lines 1760-1769.\<close>

definition add_space_of :: "bb_job \<Rightarrow> s64" where
  "add_space_of bb_job = bj_total_size bb_job + bj_persist_add bb_job"

definition user_space_needed :: "job_record \<Rightarrow> bb_job \<Rightarrow> world \<Rightarrow> s64" where
  "user_space_needed job_ptr bb_job w =
     (if user_size_limit (cfg w) \<noteq> NO_VAL64 then
        let tmp_u = bb_uhash w (user_id job_ptr);
            tmp_j = add_space_of bb_job;
            lim_u = user_size_limit (cfg w)
        in if lim_u <s tmp_u + tmp_j then tmp_u + tmp_j - lim_u else 0
      else 0)"

definition resv_space_of :: "env \<Rightarrow> world \<Rightarrow> s64" where
  "resv_space_of e w =
     (case job_test_bb_resv e of None \<Rightarrow> 0
      | Some bs \<Rightarrow> resv_space_sum (bb_granularity e) (granularity (cfg w)) (bb_name w) bs)"

definition total_space_needed :: "env \<Rightarrow> bb_job \<Rightarrow> world \<Rightarrow> s64" where
  "total_space_needed e bb_job w =
     used_space w + add_space_of bb_job + resv_space_of e w - total_space w"

text \<open>
  All records of the registry in the order of the scan of lines 1825-1867: bucket by
  bucket, each chain from its head. Following a link to an address that holds no record
  is undefined behaviour (\<open>None\<close>).
\<close>

fun deref_all :: "(nat \<rightharpoonup> bb_alloc) \<Rightarrow> nat list \<Rightarrow> (nat \<times> bb_alloc) list option" where
  "deref_all h [] = Some []"
| "deref_all h (a # as) =
     (case h a of None \<Rightarrow> None
      | Some r \<Rightarrow> (case deref_all h as of None \<Rightarrow> None | Some rs \<Rightarrow> Some ((a, r) # rs)))"

definition all_chain_addrs :: "world \<Rightarrow> nat list" where
  "all_chain_addrs w = concat (map (bb_ahash w) [0..<hash_size w])"

text \<open>Lines 1851-1862: the loop over the job's own generic resources, for one \<open>j\<close>.\<close>

fun match_job_gres :: "string \<Rightarrow> bb_gres list \<Rightarrow> c_int \<times> s64 \<times> u64 \<Rightarrow> c_int \<times> s64 \<times> u64" where
  "match_job_gres nm [] st = st"
| "match_job_gres nm (g # gs) (d, tot, av) =
     (if nm \<noteq> bg_name g then match_job_gres nm gs (d, tot, av)
      else
        let d' = (if bg_count g < scast d then ucast (bg_count g) else d)
        in match_job_gres nm gs (d', tot + scast d', av + scast d'))"

text \<open>
  Lines 1846-1863: \<open>j\<close> runs up to the \<^verbatim>\<open>gres_cnt\<close> of the candidate, but indexes
  \<^verbatim>\<open>needed_gres_ptr\<close>, which has as many entries as the job has generic resources.
  Reading past its end is undefined behaviour (\<open>None\<close>).
\<close>

fun avail_js :: "bb_gres list \<Rightarrow> nat list \<Rightarrow> needed_gres list \<times> s64 \<Rightarrow> (needed_gres list \<times> s64) option" where
  "avail_js jg [] st = Some st"
| "avail_js jg (j # js) (nd, tot) =
     (if length nd \<le> j then None
      else
        let d = (ucast (add_cnt (nd ! j) - avail_cnt (nd ! j)) :: c_int)
        in if d \<le>s 0 then avail_js jg js (nd, tot)
           else
             (case match_job_gres (ng_name (nd ! j)) jg (d, tot, avail_cnt (nd ! j)) of
                (d', tot', av') \<Rightarrow> avail_js jg js (nd[j := (nd ! j)\<lparr>avail_cnt := av'\<rparr>], tot')))"

text \<open>The accumulators of the candidate scan.\<close>

record scan_acc =
  preempt_list :: "preempt_bb_recs list"
  add_total_space_avail :: s64
  add_user_space_avail :: s64
  add_total_gres_avail :: s64
  needed_gres_ptr :: "needed_gres list"

definition scan_init :: "needed_gres list \<Rightarrow> scan_acc" where
  "scan_init nd = \<lparr>preempt_list = [], add_total_space_avail = 0, add_user_space_avail = 0,
     add_total_gres_avail = 0, needed_gres_ptr = nd\<rparr>"

text \<open>Lines 1828-1830.\<close>

definition is_candidate :: "time_t \<Rightarrow> job_record \<Rightarrow> bb_alloc \<Rightarrow> bool" where
  "is_candidate now job_ptr r \<longleftrightarrow>
     ba_job_id r \<noteq> 0 \<and> now <s ba_use_time r \<and> start_time job_ptr <s ba_use_time r"

text \<open>
  Lines 1827-1866, for the records in scan order. \<^verbatim>\<open>list_push\<close> puts the new candidate
  at the head of the list. Line 1840 ends in a semicolon, so that the addition of line
  1841 is not guarded by the comparison of the user ids.
\<close>

fun candidate_scan :: "time_t \<Rightarrow> job_record \<Rightarrow> bb_job \<Rightarrow> s64 \<Rightarrow> (nat \<times> bb_alloc) list
    \<Rightarrow> scan_acc \<Rightarrow> scan_acc option" where
  "candidate_scan now job_ptr bb_job gres_needed [] acc = Some acc"
| "candidate_scan now job_ptr bb_job gres_needed ((a, r) # rs) acc =
     (if is_candidate now job_ptr r then
        let p = \<lparr>bb_ptr = a, p_job_id = ba_job_id r, p_size = ba_size r,
                 p_use_time = ba_use_time r, p_user_id = ba_user_id r\<rparr>;
            n = length (ba_gres_ptr r);
            js = (if gres_needed <s add_total_gres_avail acc then [] else [0..<n])
        in (case avail_js (bj_gres_ptr bb_job) js (needed_gres_ptr acc, add_total_gres_avail acc) of
              None \<Rightarrow> None
            | Some (nd', ga') \<Rightarrow>
                candidate_scan now job_ptr bb_job gres_needed rs
                  \<lparr>preempt_list = p # preempt_list acc,
                   add_total_space_avail = add_total_space_avail acc + ba_size r,
                   add_user_space_avail = add_user_space_avail acc + ba_size r,
                   add_total_gres_avail = ga',
                   needed_gres_ptr = nd'\<rparr>)
      else candidate_scan now job_ptr bb_job gres_needed rs acc)"

text \<open>Lines 1894-1909: the loop over the generic resources of the candidate, for one \<open>j\<close>.\<close>

fun take_gres :: "string \<Rightarrow> burst_buffer_gres list \<Rightarrow> c_int \<times> s64 \<times> u64 \<times> bool
    \<Rightarrow> c_int \<times> s64 \<times> u64 \<times> bool" where
  "take_gres nm [] st = st"
| "take_gres nm (g # gs) (d, gn, ac, dp) =
     (if nm \<noteq> bbg_name g then take_gres nm gs (d, gn, ac, dp)
      else
        let d' = (if bbg_used_cnt g < scast d then ucast (bbg_used_cnt g) else d)
        in take_gres nm gs (d', gn - scast d', ac - scast d', True))"

text \<open>Lines 1890-1910: \<open>j\<close> runs over \<^verbatim>\<open>needed_gres_ptr\<close>, which has \<^verbatim>\<open>bb_job->gres_cnt\<close> entries.\<close>

fun preempt_gres :: "burst_buffer_gres list \<Rightarrow> needed_gres list \<Rightarrow> s64 \<times> bool
    \<Rightarrow> needed_gres list \<times> s64 \<times> bool" where
  "preempt_gres ag [] (gn, dp) = ([], gn, dp)"
| "preempt_gres ag (n # ns) (gn, dp) =
     (let d = (ucast (add_cnt n) :: c_int)
      in if d \<le>s 0 then
           (case preempt_gres ag ns (gn, dp) of (ns', r) \<Rightarrow> (n # ns', r))
         else
           (case take_gres (ng_name n) ag (d, gn, add_cnt n, dp) of
              (d', gn', ac', dp') \<Rightarrow>
                (case preempt_gres ag ns (gn', dp') of
                   (ns', r) \<Rightarrow> (n\<lparr>add_cnt := ac'\<rparr> # ns', r))))"

text \<open>
  Lines 1913-1918. \<^verbatim>\<open>_queue_teardown\<close> (lines 1528-1586) builds the argument vector and
  starts \<^verbatim>\<open>_start_teardown\<close> in a detached thread; the files it touches are not modelled.
\<close>

definition mark_preempted :: "time_t \<Rightarrow> bb_alloc \<Rightarrow> bb_alloc" where
  "mark_preempted now r =
     r\<lparr>ba_cancelled := True, ba_end_time := 0, ba_state := BB_STATE_TEARDOWN,
       ba_state_time := now\<rparr>"

definition queue_teardown :: "u32 \<Rightarrow> u32 \<Rightarrow> bool \<Rightarrow> world \<Rightarrow> world" where
  "queue_teardown jid uid hurry w = w\<lparr>spawned := spawned w @ [Teardown jid uid hurry]\<rparr>"

text \<open>
  Lines 1877-1926, one iteration for the candidate \<open>p\<close> whose record is \<open>r\<close>. The state is
  \<open>(total, user, gres, needed)\<close>: \<^verbatim>\<open>add_total_space_needed\<close>, \<^verbatim>\<open>add_user_space_needed\<close>,
  \<^verbatim>\<open>add_total_gres_needed\<close> and \<^verbatim>\<open>needed_gres_ptr\<close>; the result adds \<^verbatim>\<open>do_preempt\<close>.
\<close>

definition preempt_step :: "job_record \<Rightarrow> preempt_bb_recs \<Rightarrow> bb_alloc
    \<Rightarrow> s64 \<times> s64 \<times> s64 \<times> needed_gres list \<Rightarrow> (s64 \<times> s64 \<times> s64 \<times> needed_gres list) \<times> bool" where
  "preempt_step job_ptr p r st =
     (case st of (tn, un, gn, nd) \<Rightarrow>
        let same = (p_user_id p = user_id job_ptr);
            dp1 = (un \<noteq> 0 \<and> same);
            un1 = (if dp1 then un - p_size p else un);
            tn1 = (if dp1 then tn - p_size p else tn);
            dp2 = (un1 <s tn1 \<and> \<not> same);
            tn2 = (if dp2 then tn1 - p_size p else tn1)
        in (case (if gn \<noteq> 0 then preempt_gres (ba_gres_ptr r) nd (gn, dp1 \<or> dp2)
                  else (nd, gn, dp1 \<or> dp2)) of
              (nd', gn', do_preempt) \<Rightarrow> ((tn2, un1, gn', nd'), do_preempt)))"

definition needs_left :: "s64 \<times> s64 \<times> s64 \<times> needed_gres list \<Rightarrow> bool" where
  "needs_left st = (case st of (tn, un, gn, nd) \<Rightarrow> tn \<noteq> 0 \<or> un \<noteq> 0 \<or> gn \<noteq> 0)"

definition do_preempt_rec :: "time_t \<Rightarrow> preempt_bb_recs \<Rightarrow> bb_alloc \<Rightarrow> world \<Rightarrow> world" where
  "do_preempt_rec now p r w =
     queue_teardown (p_job_id p) (p_user_id p) True
       (w\<lparr>heap := (heap w)(bb_ptr p \<mapsto> mark_preempted now r)\<rparr>)"

text \<open>Lines 1874-1927, over the sorted candidates.\<close>

fun preempt_loop :: "time_t \<Rightarrow> job_record \<Rightarrow> preempt_bb_recs list
    \<Rightarrow> s64 \<times> s64 \<times> s64 \<times> needed_gres list \<Rightarrow> world \<Rightarrow> world option" where
  "preempt_loop now job_ptr [] st w = Some w"
| "preempt_loop now job_ptr (p # ps) st w =
     (if \<not> needs_left st then Some w
      else
        (case heap w (bb_ptr p) of
           None \<Rightarrow> None
         | Some r \<Rightarrow>
             preempt_loop now job_ptr ps (fst (preempt_step job_ptr p r st))
               (if snd (preempt_step job_ptr p r st) then do_preempt_rec now p r w else w)))"

text \<open>
  \<^verbatim>\<open>_test_size_limit\<close>. The descriptor \<open>bb_job\<close> is the caller's pointer into the job
  descriptor cache; the result holds the return code, the descriptor as the call leaves
  it, and the state. \<open>None\<close> is undefined behaviour in the candidate scan.
\<close>

definition test_size_limit :: "env \<Rightarrow> job_record \<Rightarrow> bb_job \<Rightarrow> world \<Rightarrow> (int \<times> bb_job \<times> world) option" where
  "test_size_limit e job_ptr bb_job w =
     (if bb_limit_test e (user_id job_ptr) (bj_account bb_job) (bj_partition bb_job)
           (bj_qos bb_job) (add_space_of bb_job) < 1
      then Some (1, bb_job, w)
      else
        let add_user_space_needed = user_space_needed job_ptr bb_job w;
            add_total_space_needed = total_space_needed e bb_job w
        in (case scan_gres (bb_granularity e) (gres_ptr (cfg w)) (bb_name w)
                   (job_test_bb_resv e) (bj_gres_ptr bb_job) of
              (ok, gs', nd) \<Rightarrow>
                let bb_job' = bb_job\<lparr>bj_gres_ptr := gs'\<rparr>;
                    add_total_gres_needed = gres_needed_total nd
                in if \<not> ok then Some (1, bb_job', w)
                   else if add_total_space_needed \<le>s 0 \<and> add_user_space_needed \<le>s 0
                           \<and> add_total_gres_needed \<le>s 0
                   then Some (0, bb_job', w)
                   else
                     (case deref_all (heap w) (all_chain_addrs w) of
                        None \<Rightarrow> None
                      | Some recs \<Rightarrow>
                          (case candidate_scan (time_now e) job_ptr bb_job' add_total_gres_needed
                                  recs (scan_init nd) of
                             None \<Rightarrow> None
                           | Some acc \<Rightarrow>
                               if add_total_space_needed \<le>s add_total_space_avail acc
                                  \<and> add_user_space_needed \<le>s add_user_space_avail acc
                                  \<and> add_total_gres_needed \<le>s add_total_gres_avail acc
                               then
                                 (case preempt_loop (time_now e) job_ptr
                                         (list_sort e (preempt_list acc))
                                         (add_total_space_needed, add_user_space_needed,
                                          add_total_gres_needed, needed_gres_ptr acc) w of
                                    None \<Rightarrow> None
                                  | Some w' \<Rightarrow> Some (2, bb_job', w'))
                               else Some (2, bb_job', w)))))"

text \<open>
  Notions used to state what the admission test decides. \<open>limit_ok\<close> is the test of
  line 1739. For one requested generic resource, \<open>rounded_count\<close> is the value of line
  1777, \<open>gres_admissible\<close> says that a configured pool has its name and that the rounded
  count does not exceed the pool's configured count (lines 1781 and 1801), and
  \<open>gres_deficit\<close> is the value that lines 1793-1797 leave in \<^verbatim>\<open>add_cnt\<close> (zero where no
  pool has the name: \<^verbatim>\<open>xmalloc\<close> zeroes the array and nothing is stored).
\<close>

definition limit_ok :: "env \<Rightarrow> job_record \<Rightarrow> bb_job \<Rightarrow> bool" where
  "limit_ok e job_ptr bb_job \<longleftrightarrow>
     1 \<le> bb_limit_test e (user_id job_ptr) (bj_account bb_job) (bj_partition bb_job)
            (bj_qos bb_job) (add_space_of bb_job)"

definition rounded_count :: "(u64 \<Rightarrow> u64 \<Rightarrow> u64) \<Rightarrow> burst_buffer_gres \<Rightarrow> bb_gres \<Rightarrow> u64" where
  "rounded_count gran c g = gran (bg_count g) (bbg_granularity c)"

definition gres_admissible :: "(u64 \<Rightarrow> u64 \<Rightarrow> u64) \<Rightarrow> burst_buffer_gres list \<Rightarrow> bb_gres \<Rightarrow> bool" where
  "gres_admissible gran cf g =
     (case find_gres (bg_name g) cf of None \<Rightarrow> False
      | Some c \<Rightarrow> \<not> bbg_avail_cnt c < rounded_count gran c g)"

definition gres_deficit :: "(u64 \<Rightarrow> u64 \<Rightarrow> u64) \<Rightarrow> burst_buffer_gres list \<Rightarrow> string option
    \<Rightarrow> burst_buffer_info list option \<Rightarrow> bb_gres \<Rightarrow> u64" where
  "gres_deficit gran cf nm resv_bb g =
     (case find_gres (bg_name g) cf of None \<Rightarrow> 0
      | Some c \<Rightarrow>
          let tmp_g = rounded_count gran c g;
              tmp_f = bbg_avail_cnt c - bbg_used_cnt c - get_bb_resv nm (bg_name g) resv_bb
          in if tmp_f <s tmp_g then tmp_g - tmp_f else 0)"

definition gres_deficits :: "env \<Rightarrow> world \<Rightarrow> bb_job \<Rightarrow> u64 list" where
  "gres_deficits e w bb_job =
     map (gres_deficit (bb_granularity e) (gres_ptr (cfg w)) (bb_name w) (job_test_bb_resv e))
       (bj_gres_ptr bb_job)"

definition gres_all_admissible :: "env \<Rightarrow> world \<Rightarrow> bb_job \<Rightarrow> bool" where
  "gres_all_admissible e w bb_job =
     list_all (gres_admissible (bb_granularity e) (gres_ptr (cfg w))) (bj_gres_ptr bb_job)"

text \<open>
  What the loop of lines 1771-1812 leaves in the job's \<^verbatim>\<open>gres_ptr\<close> array, said without
  the loop: a request that names a configured pool gets the rounded count; the requests
  after the first inadmissible one are not visited.
\<close>

definition round_gres :: "(u64 \<Rightarrow> u64 \<Rightarrow> u64) \<Rightarrow> burst_buffer_gres list \<Rightarrow> bb_gres \<Rightarrow> bb_gres" where
  "round_gres gran cf g =
     (case find_gres (bg_name g) cf of None \<Rightarrow> g
      | Some c \<Rightarrow> g\<lparr>bg_count := rounded_count gran c g\<rparr>)"

definition rounded_gres :: "(u64 \<Rightarrow> u64 \<Rightarrow> u64) \<Rightarrow> burst_buffer_gres list \<Rightarrow> bb_gres list \<Rightarrow> bb_gres list" where
  "rounded_gres gran cf gs =
     map (round_gres gran cf) (takeWhile (gres_admissible gran cf) gs)
     @ (case dropWhile (gres_admissible gran cf) gs of
          [] \<Rightarrow> []
        | g # rest \<Rightarrow> round_gres gran cf g # rest)"

text \<open>
  An instance of the parameters for the concrete evaluations: the limit test passes, a
  count is rounded up to the next multiple of the granularity, and the candidates are
  sorted by their use time.
\<close>

definition ex_granularity :: "u64 \<Rightarrow> u64 \<Rightarrow> u64" where
  "ex_granularity sz g = (if 1 < g then ((sz + g - 1) div g) * g else sz)"

definition ex_env :: env where
  "ex_env = \<lparr>bb_limit_test = (\<lambda>u a p q s. 1), bb_granularity = ex_granularity,
     list_sort = sort_key (\<lambda>p. sint (p_use_time p)), job_test_bb_resv = None, time_now = 100\<rparr>"

definition ex_cfg :: bb_config where
  "ex_cfg = \<lparr>debug_flag = False, emulate_cray = False, granularity = 1, gres_ptr = [],
     user_size_limit = NO_VAL64\<rparr>"

definition ex_pool :: burst_buffer_gres where
  "ex_pool = \<lparr>bbg_avail_cnt = 8, bbg_granularity = 2, bbg_name = ''nodes'', bbg_used_cnt = 0\<rparr>"

text \<open>An empty registry with 100 units of space, none of them in use.\<close>

definition ex_world :: world where
  "ex_world = \<lparr>cfg = ex_cfg, bb_name = None, used_space = 0, total_space = 100,
     last_load_time = 0, hash_size = 2, bb_ahash = (\<lambda>i. []), heap = Map.empty, next_addr = 1,
     bb_jhash = Map.empty, bb_uhash = (\<lambda>u. 0), jobs = Map.empty, limit_log = [], spawned = []\<rparr>"

text \<open>Job 7 of user 1, expected to start at time 200, asks for 10 units of space.\<close>

definition ex_job :: job_record where
  "ex_job = \<lparr>job_id = 7, user_id = 1, start_time = 200,
     burst_buffer = Some ''SLURM_JOB=SIZE=10'', account = None, part_name = None,
     qos_name = None, job_pending = True, priority = 1, state_reason = WAIT_NO_REASON,
     state_desc = None\<rparr>"

definition ex_bb_job :: bb_job where
  "ex_bb_job = \<lparr>bj_account = None, bj_buf_ptr = [], bj_gres_ptr = [], bj_job_id = 7,
     bj_partition = None, bj_persist_add = 0, bj_qos = None, bj_state = BB_STATE_PENDING,
     bj_swap_size = 0, bj_swap_nodes = 0, bj_total_size = 10, bj_user_id = 1\<rparr>"

text \<open>The buffer of job 9, owned by user 2, 50 units, needed at time 500.\<close>

definition ex_alloc :: bb_alloc where
  "ex_alloc = \<lparr>ba_account = None, ba_cancelled = False, ba_create_time = 0, ba_end_time = 0,
     ba_gres_ptr = [], ba_job_id = 9, ba_name = Some ''9'', ba_partition = None, ba_qos = None,
     ba_seen_time = 90, ba_size = 50, ba_state = BB_STATE_STAGED_IN, ba_state_time = 50,
     ba_use_time = 500, ba_user_id = 2\<rparr>"

text \<open>The registry holds that buffer at address 1; 95 of the 100 units are in use.\<close>

definition ex_world_full :: world where
  "ex_world_full = ex_world\<lparr>used_space := 95, bb_ahash := (\<lambda>i. if i = 0 then [1] else []),
     heap := [1 \<mapsto> ex_alloc], next_addr := 2\<rparr>"

text \<open>Variants: the job also asks for one or three \<open>nodes\<close>; a pool of that name is
  configured; the limit test fails.\<close>

definition ex_bb_job_nodes :: bb_job where
  "ex_bb_job_nodes = ex_bb_job\<lparr>bj_gres_ptr := [\<lparr>bg_name = ''nodes'', bg_count = 1\<rparr>]\<rparr>"

definition ex_bb_job_3 :: bb_job where
  "ex_bb_job_3 = ex_bb_job\<lparr>bj_gres_ptr := [\<lparr>bg_name = ''nodes'', bg_count = 3\<rparr>]\<rparr>"

definition ex_world_pool :: world where
  "ex_world_pool = ex_world\<lparr>cfg := ex_cfg\<lparr>gres_ptr := [ex_pool]\<rparr>\<rparr>"

definition ex_world_full_pool :: world where
  "ex_world_full_pool = ex_world_full\<lparr>cfg := ex_cfg\<lparr>gres_ptr := [ex_pool]\<rparr>\<rparr>"

definition ex_env_over :: env where
  "ex_env_over = ex_env\<lparr>bb_limit_test := (\<lambda>u a p q s. 0)\<rparr>"

text \<open>A per-user limit of 100 units, of which user 1 already holds 93.\<close>

definition ex_world_user_limit :: world where
  "ex_world_user_limit = ex_world_full\<lparr>cfg := ex_cfg\<lparr>user_size_limit := 100\<rparr>,
     bb_uhash := (\<lambda>u. if u = 1 then 93 else 0)\<rparr>"

text \<open>
  The invariant of the preemption loop, relative to the state \<open>w0\<close> at the start of the
  call: every record is as it was or is the marked version of a record that was a
  candidate, and every task queued since is the hurried teardown of such a record.
\<close>

definition preempt_inv :: "time_t \<Rightarrow> job_record \<Rightarrow> world \<Rightarrow> world \<Rightarrow> bool" where
  "preempt_inv now job_ptr w0 w \<longleftrightarrow>
     (\<forall>a. heap w a = heap w0 a
          \<or> (\<exists>r. heap w0 a = Some r \<and> is_candidate now job_ptr r
                \<and> heap w a = Some (mark_preempted now r)))
     \<and> (\<exists>ts. spawned w = spawned w0 @ ts
          \<and> (\<forall>t\<in>set ts. \<exists>a r. heap w0 a = Some r \<and> is_candidate now job_ptr r
                \<and> t = Teardown (ba_job_id r) (ba_user_id r) True))"

definition candidate_of :: "time_t \<Rightarrow> job_record \<Rightarrow> world \<Rightarrow> preempt_bb_recs \<Rightarrow> bool" where
  "candidate_of now job_ptr w0 p \<longleftrightarrow>
     (\<exists>r. heap w0 (bb_ptr p) = Some r \<and> is_candidate now job_ptr r
          \<and> p_job_id p = ba_job_id r \<and> p_user_id p = ba_user_id r)"

section \<open>Collaborators of the lifecycle driver\<close>

text \<open>
  \<^verbatim>\<open>bb_run_script\<close> returns the response text and stores the wait status of the tool.
  \<open>tool_failed\<close> is the test \<^verbatim>\<open>!WIFEXITED(status) || (WEXITSTATUS(status) != 0)\<close>.
\<close>

datatype wait_status = Exited nat | Signaled nat

record tool_result =
  status :: wait_status
  resp_msg :: "string option"

definition tool_failed :: "wait_status \<Rightarrow> bool" where
  "tool_failed s = (case s of Exited c \<Rightarrow> c \<noteq> 0 | Signaled n \<Rightarrow> True)"

text \<open>\<^verbatim>\<open>strstr(s, sub) != NULL\<close>.\<close>

fun is_prefix :: "string \<Rightarrow> string \<Rightarrow> bool" where
  "is_prefix [] s = True"
| "is_prefix (c # cs) [] = False"
| "is_prefix (c # cs) (d # ds) = (c = d \<and> is_prefix cs ds)"

fun strstr :: "string \<Rightarrow> string \<Rightarrow> bool" where
  "strstr [] sub = (sub = [])"
| "strstr (c # cs) sub = (is_prefix sub (c # cs) \<or> strstr cs sub)"

text \<open>The text that \<^verbatim>\<open>%u\<close> prints for a number.\<close>

fun dec_string :: "nat \<Rightarrow> string" where
  "dec_string n =
     (if n < 10 then [''0123456789'' ! n]
      else dec_string (n div 10) @ [''0123456789'' ! (n mod 10)])"

declare dec_string.simps [simp del]

text \<open>
  \<^verbatim>\<open>strtol(s, &end_ptr, 10)\<close> for a string that starts with a digit, stored into a
  \<^verbatim>\<open>uint32_t\<close>: the leading digits are read, the value saturates at \<^verbatim>\<open>LONG_MAX\<close> and
  the store truncates it.
\<close>

definition is_digit :: "char \<Rightarrow> bool" where
  "is_digit c \<longleftrightarrow> 48 \<le> (of_char c :: nat) \<and> (of_char c :: nat) \<le> 57"

fun strtol_digits :: "string \<Rightarrow> nat \<Rightarrow> nat" where
  "strtol_digits [] acc = acc"
| "strtol_digits (c # cs) acc =
     (if is_digit c then strtol_digits cs (10 * acc + (of_char c - 48)) else acc)"

definition strtol_u32 :: "string \<Rightarrow> u32" where
  "strtol_u32 s = word_of_nat (min (strtol_digits s 0) (2 ^ 63 - 1))"

text \<open>
  Modelled from the spec: \<^verbatim>\<open>bb_limit_add\<close> and \<^verbatim>\<open>bb_limit_rem\<close> of
  \<^verbatim>\<open>burst_buffer_common.c\<close> are not among the sources. They are the Limit Tracker's
  \<open>add\<close> and \<open>remove\<close> of section 4.2; each call is appended to the trace \<open>limit_log\<close>.
\<close>

definition bb_limit_add :: "u32 \<Rightarrow> string option \<Rightarrow> string option \<Rightarrow> string option \<Rightarrow> u64
    \<Rightarrow> world \<Rightarrow> world" where
  "bb_limit_add uid acct part q sz w = w\<lparr>limit_log := limit_log w @ [LimitAdd uid acct part q sz]\<rparr>"

definition bb_limit_rem :: "u32 \<Rightarrow> string option \<Rightarrow> string option \<Rightarrow> string option \<Rightarrow> u64
    \<Rightarrow> world \<Rightarrow> world" where
  "bb_limit_rem uid acct part q sz w = w\<lparr>limit_log := limit_log w @ [LimitRem uid acct part q sz]\<rparr>"


text \<open>
  A walk along a chain for the first record that satisfies \<open>P\<close>. The result is \<open>None\<close>
  when the walk follows a link to an address that holds no record (undefined behaviour),
  \<open>Some None\<close> when it reaches the end of the chain, and \<open>Some (Some a)\<close> when it stops at
  address \<open>a\<close>.
\<close>

fun find_rec :: "(bb_alloc \<Rightarrow> bool) \<Rightarrow> (nat \<rightharpoonup> bb_alloc) \<Rightarrow> nat list \<Rightarrow> nat option option" where
  "find_rec P h [] = Some None"
| "find_rec P h (a # as) =
     (case h a of None \<Rightarrow> None
      | Some r \<Rightarrow> if P r then Some (Some a) else find_rec P h as)"

definition bucket :: "world \<Rightarrow> u32 \<Rightarrow> nat" where
  "bucket w uid = unat uid mod hash_size w"

text \<open>
  Modelled from the spec: \<^verbatim>\<open>bb_find_alloc_rec\<close> of \<^verbatim>\<open>burst_buffer_common.c\<close> is not among
  the sources. It is the Buffer Registry's \<open>find(jobId)\<close> of section 4.1: the first record
  in the bucket of the job's user that carries the job's id and user id.
\<close>

definition bb_find_alloc_rec :: "world \<Rightarrow> job_record \<Rightarrow> nat option option" where
  "bb_find_alloc_rec w job_ptr =
     find_rec (\<lambda>r. ba_job_id r = job_id job_ptr \<and> ba_user_id r = user_id job_ptr)
       (heap w) (bb_ahash w (bucket w (user_id job_ptr)))"

text \<open>
  Modelled from the spec: \<^verbatim>\<open>bb_find_name_rec\<close> of \<^verbatim>\<open>burst_buffer_common.c\<close> is not among
  the sources. It is the Buffer Registry's \<open>find(name, userId)\<close> of section 4.1: the first
  record in the bucket of the user that carries the name and the user id.
\<close>

definition bb_find_name_rec :: "string option \<Rightarrow> u32 \<Rightarrow> world \<Rightarrow> nat option option" where
  "bb_find_name_rec nm uid w =
     find_rec (\<lambda>r. ba_name r = nm \<and> ba_user_id r = uid) (heap w) (bb_ahash w (bucket w uid))"

text \<open>
  Modelled from the spec: \<^verbatim>\<open>bb_alloc_name_rec\<close> of \<^verbatim>\<open>burst_buffer_common.c\<close> is not among
  the sources. It is the Buffer Registry's \<open>insert\<close> of section 4.1 for a named buffer: a
  fresh zeroed record with the name and the user id, in state ALLOCATED and seen now, is
  linked at the head of the user's bucket. The result is the new state and the address
  of the record.
\<close>

definition zero_alloc :: bb_alloc where
  "zero_alloc = \<lparr>ba_account = None, ba_cancelled = False, ba_create_time = 0, ba_end_time = 0,
     ba_gres_ptr = [], ba_job_id = 0, ba_name = None, ba_partition = None, ba_qos = None,
     ba_seen_time = 0, ba_size = 0, ba_state = BB_STATE_PENDING, ba_state_time = 0,
     ba_use_time = 0, ba_user_id = 0\<rparr>"

definition bb_alloc_name_rec :: "time_t \<Rightarrow> string option \<Rightarrow> u32 \<Rightarrow> world \<Rightarrow> world \<times> nat" where
  "bb_alloc_name_rec now nm uid w =
     (let a = next_addr w;
          i = bucket w uid;
          r = zero_alloc\<lparr>ba_name := nm, ba_state := BB_STATE_ALLOCATED, ba_state_time := now,
                ba_seen_time := now, ba_user_id := uid\<rparr>
      in (w\<lparr>heap := (heap w)(a \<mapsto> r),
            bb_ahash := (bb_ahash w)(i := a # bb_ahash w i),
            next_addr := Suc a\<rparr>, a))"

text \<open>
  \<^verbatim>\<open>bb_free_alloc_buf\<close> releases the memory of a record. Releasing an address that holds no
  record is a double free (\<open>None\<close>).
\<close>

definition bb_free_alloc_buf :: "nat \<Rightarrow> world \<Rightarrow> world option" where
  "bb_free_alloc_buf a w =
     (case heap w a of None \<Rightarrow> None | Some r \<Rightarrow> Some (w\<lparr>heap := (heap w)(a := None)\<rparr>))"

text \<open>
  Modelled from the spec: \<^verbatim>\<open>bb_free_alloc_rec\<close> of \<^verbatim>\<open>burst_buffer_common.c\<close> is not among
  the sources. It is the Buffer Registry's \<open>remove(record)\<close> of section 4.1: the record
  is unlinked from the bucket of its user and freed. The bucket is the one of the record's
  user id, so the pointer is dereferenced: a pointer to no record is undefined behaviour
  (\<open>None\<close>), as every other dangling dereference. The callers discard the result (the
  cast of lines 1638 and 3687); here it says whether the record was linked.
\<close>

definition bb_free_alloc_rec :: "nat \<Rightarrow> world \<Rightarrow> (world \<times> bool) option" where
  "bb_free_alloc_rec a w =
     (case heap w a of
        None \<Rightarrow> None
      | Some r \<Rightarrow>
          let i = bucket w (ba_user_id r)
          in if a \<in> set (bb_ahash w i) then
               (case bb_free_alloc_buf a (w\<lparr>bb_ahash := (bb_ahash w)(i := remove1 a (bb_ahash w i))\<rparr>) of
                  None \<Rightarrow> None
                | Some w' \<Rightarrow> Some (w', True))
             else Some (w, False))"

text \<open>
  \<^verbatim>\<open>_get_bb_job\<close> (lines 408-571) returns the cached descriptor of the job, or builds one
  from the job's \<^verbatim>\<open>burst_buffer\<close> string and caches it. The parse of the string (lines
  425-567) is the parameter \<open>parse\<close>; it yields \<open>None\<close> where the code finds no burst
  buffer request (\<^verbatim>\<open>have_bb\<close> stays false). The result is the state and whether a
  descriptor exists for the job.
\<close>

definition get_bb_job :: "(job_record \<Rightarrow> bb_job option) \<Rightarrow> job_record \<Rightarrow> world \<Rightarrow> world \<times> bool" where
  "get_bb_job parse job_ptr w =
     (if burst_buffer job_ptr = None \<or> burst_buffer job_ptr = Some [] then (w, False)
      else
        (case bb_jhash w (job_id job_ptr) of
           Some j \<Rightarrow> (w, True)
         | None \<Rightarrow>
             (case parse job_ptr of
                None \<Rightarrow> (w, False)
              | Some j \<Rightarrow> (w\<lparr>bb_jhash := (bb_jhash w)(job_id job_ptr \<mapsto> j)\<rparr>, True))))"

definition set_bb_job_state :: "u32 \<Rightarrow> bb_state_code \<Rightarrow> world \<Rightarrow> world" where
  "set_bb_job_state jid s w =
     (case bb_jhash w jid of
        None \<Rightarrow> w
      | Some j \<Rightarrow> w\<lparr>bb_jhash := (bb_jhash w)(jid \<mapsto> j\<lparr>bj_state := s\<rparr>)\<rparr>)"

definition set_alloc_state :: "nat \<Rightarrow> bb_state_code \<Rightarrow> time_t \<Rightarrow> world \<Rightarrow> world" where
  "set_alloc_state a s now w =
     (case heap w a of
        None \<Rightarrow> w
      | Some r \<Rightarrow> w\<lparr>heap := (heap w)(a \<mapsto> r\<lparr>ba_state := s, ba_state_time := now\<rparr>)\<rparr>)"

definition plugin_type :: string where
  "plugin_type = ''burst_buffer/cray''"

text \<open>What \<^verbatim>\<open>xstrfmtcat(desc, "%s: %s: %s", plugin_type, op, resp_msg)\<close> leaves in an empty
  \<^verbatim>\<open>desc\<close>; a \<^verbatim>\<open>NULL\<close> argument prints as \<^verbatim>\<open>(null)\<close>.\<close>

definition fail_desc :: "string \<Rightarrow> string option \<Rightarrow> string" where
  "fail_desc op resp =
     plugin_type @ '': '' @ op @ '': '' @ (case resp of None \<Rightarrow> ''(null)'' | Some r \<Rightarrow> r)"

section \<open>Persistent sub-requests: \<^verbatim>\<open>_reset_buf_state\<close> and \<^verbatim>\<open>_create_persistent\<close>\<close>

text \<open>
  Lines 3458-3475: the loop stops at the first sub-request with the name. The result is
  the array after the loop and, when a sub-request was found, that sub-request as it was
  before.
\<close>

fun reset_first_named :: "string \<Rightarrow> bb_state_code \<Rightarrow> bb_buf list \<Rightarrow> bb_buf list \<times> bb_buf option" where
  "reset_first_named nm s [] = ([], None)"
| "reset_first_named nm s (b # bs) =
     (if nm \<noteq> buf_name b then (b # fst (reset_first_named nm s bs), snd (reset_first_named nm s bs))
      else (b\<lparr>buf_state := s\<rparr> # bs, Some b))"

text \<open>
  Lines 3477-3486: the loop leaves through the \<^verbatim>\<open>break\<close> of line 3485 at the end of its
  first iteration, so only the first sub-request is looked at. The local \<^verbatim>\<open>active_buf\<close>
  is declared without an initial value (line 3449): \<open>active0\<close> is the value it happens to
  hold.
\<close>

definition buf_active :: "bb_buf \<Rightarrow> bool" where
  "buf_active b \<longleftrightarrow>
     buf_state b = BB_STATE_PENDING \<or> buf_state b = BB_STATE_ALLOCATING
     \<or> buf_state b = BB_STATE_DELETING \<or> buf_state b = BB_STATE_TEARDOWN"

definition first_buf_active :: "bool \<Rightarrow> bb_buf list \<Rightarrow> bool" where
  "first_buf_active active0 bufs =
     (case bufs of [] \<Rightarrow> active0 | b # bs \<Rightarrow> if buf_active b then True else active0)"

text \<open>\<^verbatim>\<open>_reset_buf_state\<close> (lines 3443-3493).\<close>

definition reset_buf_state :: "bool \<Rightarrow> u32 \<Rightarrow> u32 \<Rightarrow> string \<Rightarrow> bb_state_code \<Rightarrow> world \<Rightarrow> world" where
  "reset_buf_state active0 uid jid nm new_state w =
     (case bb_jhash w jid of
        None \<Rightarrow> w
      | Some bb_job \<Rightarrow>
          let bufs' = fst (reset_first_named nm new_state (bj_buf_ptr bb_job));
              w1 = (case snd (reset_first_named nm new_state (bj_buf_ptr bb_job)) of
                      None \<Rightarrow> w
                    | Some b \<Rightarrow>
                        let wa = (if buf_state b = BB_STATE_ALLOCATING \<and> new_state = BB_STATE_PENDING
                                  then bb_limit_rem uid (bj_account bb_job) (bj_partition bb_job)
                                         (bj_qos bb_job) (buf_size b) w
                                  else w)
                        in if buf_state b = BB_STATE_DELETING \<and> new_state = BB_STATE_PENDING
                           then bb_limit_rem uid (bj_account bb_job) (bj_partition bb_job)
                                  (bj_qos bb_job) (buf_size b) wa
                           else wa);
              active_buf = first_buf_active active0 bufs';
              st = (if \<not> active_buf then
                      (if bj_state bb_job = BB_STATE_ALLOCATING then BB_STATE_ALLOCATED
                       else if bj_state bb_job = BB_STATE_DELETING then BB_STATE_DELETED
                       else bj_state bb_job)
                    else bj_state bb_job)
          in w1\<lparr>bb_jhash := (bb_jhash w1)(jid \<mapsto> bb_job\<lparr>bj_buf_ptr := bufs', bj_state := st\<rparr>)\<rparr>)"

text \<open>\<^verbatim>\<open>create_buf_data_t\<close> (lines 159-168).\<close>

record create_buf_data =
  cb_access :: "string option"
  cb_hurry :: bool
  cb_job_id :: u32
  cb_job_script :: "string option"
  cb_name :: string
  cb_size :: u64
  cb_type :: "string option"
  cb_user_id :: u32

text \<open>Lines 3546-3565, the body of the branch for a failed tool call.\<close>

definition create_persistent_failed :: "bool \<Rightarrow> create_buf_data \<Rightarrow> tool_result \<Rightarrow> world \<Rightarrow> world" where
  "create_persistent_failed active0 args res w =
     (let w1 = (case jobs w (cb_job_id args) of
                  None \<Rightarrow> w
                | Some job_ptr \<Rightarrow>
                    w\<lparr>jobs := (jobs w)(cb_job_id args \<mapsto>
                         job_ptr\<lparr>state_reason := FAIL_BAD_CONSTRAINTS, priority := 0,
                           state_desc := Some (fail_desc ''_create_persistent'' (resp_msg res))\<rparr>)\<rparr>)
      in reset_buf_state active0 (cb_user_id args) (cb_job_id args) (cb_name args)
           BB_STATE_PENDING w1)"

text \<open>Lines 3567-3604, the body of the branch for a response that contains \<^verbatim>\<open>created\<close>.\<close>

definition create_persistent_created :: "bool \<Rightarrow> time_t \<Rightarrow> create_buf_data \<Rightarrow> world \<Rightarrow> world" where
  "create_persistent_created active0 now args w =
     (let job = jobs w (cb_job_id args);
          w1 = reset_buf_state active0 (cb_user_id args) (cb_job_id args) (cb_name args)
                 BB_STATE_ALLOCATED w
      in case bb_alloc_name_rec now (Some (cb_name args)) (cb_user_id args) w1 of
           (w2, a) \<Rightarrow>
             (case heap w2 a of
                None \<Rightarrow> w2
              | Some r \<Rightarrow>
                  let r1 = (if emulate_cray (cfg w2) then r\<lparr>ba_create_time := now\<rparr> else r);
                      r2 = r1\<lparr>ba_size := cb_size args\<rparr>;
                      r3 = (case job of
                              None \<Rightarrow> r2
                            | Some job_ptr \<Rightarrow>
                                r2\<lparr>ba_account := account job_ptr,
                                   ba_partition := part_name job_ptr,
                                   ba_qos := qos_name job_ptr\<rparr>)
                  in w2\<lparr>heap := (heap w2)(a \<mapsto> r3)\<rparr>))"

text \<open>
  \<^verbatim>\<open>_create_persistent\<close> (lines 3496-3609), from the return of the tool on. The test of the
  exit status is commented out (line 3544) and replaced by \<^verbatim>\<open>if (0)\<close> (line 3545).
\<close>

definition create_persistent :: "bool \<Rightarrow> time_t \<Rightarrow> create_buf_data \<Rightarrow> tool_result \<Rightarrow> world \<Rightarrow> world" where
  "create_persistent active0 now args res w =
     (if False then create_persistent_failed active0 args res w
      else if (case resp_msg res of None \<Rightarrow> False | Some m \<Rightarrow> strstr m ''created'')
      then create_persistent_created active0 now args w
      else w)"

section \<open>The workers \<^verbatim>\<open>_start_stage_out\<close> and \<^verbatim>\<open>_start_teardown\<close>\<close>

text \<open>\<^verbatim>\<open>stage_args_t\<close> (lines 145-151) without the argument vectors.\<close>

record stage_args =
  sa_job_id :: u32
  sa_timeout :: u32
  sa_user_id :: u32

text \<open>
  \<^verbatim>\<open>_start_stage_out\<close> (lines 1412-1526). \<open>r1\<close> is what the tool returns for
  \<^verbatim>\<open>dws_data_out\<close> and \<open>r2\<close> what it returns for \<^verbatim>\<open>dws_post_run\<close>, which runs only after
  a successful data-out. Line 1476 frees the response of the post-run call, so that the
  description of a post-run failure is built from a \<^verbatim>\<open>NULL\<close> response. \<open>None\<close> is
  undefined behaviour in the registry walk.
\<close>

definition stage_out_failed :: "tool_result \<Rightarrow> tool_result \<Rightarrow> bool" where
  "stage_out_failed r1 r2 \<longleftrightarrow> tool_failed (status r1) \<or> tool_failed (status r2)"

definition start_stage_out :: "(job_record \<Rightarrow> bb_job option) \<Rightarrow> time_t \<Rightarrow> stage_args
    \<Rightarrow> tool_result \<Rightarrow> tool_result \<Rightarrow> world \<Rightarrow> world option" where
  "start_stage_out parse now args r1 r2 w =
     (let failed = stage_out_failed r1 r2;
          op = (if tool_failed (status r1) then ''dws_data_out'' else ''dws_post_run'');
          resp = (if tool_failed (status r1) then resp_msg r1 else None)
      in case jobs w (sa_job_id args) of
           None \<Rightarrow> Some w
         | Some job_ptr \<Rightarrow>
             let job_ptr' = (if failed
                             then job_ptr\<lparr>state_reason := FAIL_BURST_BUFFER_OP,
                                    state_desc := Some (fail_desc op resp)\<rparr>
                             else job_ptr);
                 w1 = w\<lparr>jobs := (jobs w)(sa_job_id args \<mapsto> job_ptr')\<rparr>
             in (case bb_find_alloc_rec w1 job_ptr' of
                   None \<Rightarrow> None
                 | Some found \<Rightarrow>
                     let w2 = (case found of
                                 None \<Rightarrow> w1
                               | Some a \<Rightarrow>
                                   if \<not> failed then set_alloc_state a BB_STATE_TEARDOWN now w1
                                   else w1);
                         w3 = fst (get_bb_job parse job_ptr' w2);
                         w4 = (if snd (get_bb_job parse job_ptr' w2)
                               then set_bb_job_state (job_id job_ptr') BB_STATE_TEARDOWN w3
                               else w3)
                     in Some (if \<not> failed
                              then queue_teardown (sa_job_id args) (sa_user_id args) False w4
                              else w4)))"

text \<open>
  Lines 1633-1638 and 1652-1657: the limit is decremented and \<^verbatim>\<open>bb_free_alloc_rec\<close> is
  called twice with the same pointer.
\<close>

definition release_alloc :: "nat \<Rightarrow> world \<Rightarrow> world option" where
  "release_alloc a w =
     (case heap w a of
        None \<Rightarrow> None
      | Some r \<Rightarrow>
          (case bb_free_alloc_rec a
                  (bb_limit_rem (ba_user_id r) (ba_account r) (ba_partition r) (ba_qos r)
                     (ba_size r) w) of
             None \<Rightarrow> None
           | Some (w1, b1) \<Rightarrow>
               (case bb_free_alloc_rec a w1 of
                  None \<Rightarrow> None
                | Some (w2, b2) \<Rightarrow> Some w2)))"

text \<open>The test of lines 1622-1623: the tool failed and its response is not the benign
  \<^verbatim>\<open>token not found\<close>.\<close>

definition teardown_failed :: "tool_result \<Rightarrow> bool" where
  "teardown_failed res \<longleftrightarrow>
     tool_failed (status res)
     \<and> (case resp_msg res of None \<Rightarrow> True | Some m \<Rightarrow> \<not> strstr m ''token not found'')"

text \<open>
  \<^verbatim>\<open>_start_teardown\<close> (lines 1588-1669), from the return of the tool on. The files removed
  by \<^verbatim>\<open>_purge_bb_files\<close> are not modelled. \<open>None\<close> is undefined behaviour.
\<close>

definition start_teardown :: "(job_record \<Rightarrow> bb_job option) \<Rightarrow> stage_args \<Rightarrow> tool_result
    \<Rightarrow> world \<Rightarrow> world option" where
  "start_teardown parse args res w =
     (if teardown_failed res then Some w
      else
        (case jobs w (sa_job_id args) of
           Some job_ptr \<Rightarrow>
             (case bb_find_alloc_rec w job_ptr of
                None \<Rightarrow> None
              | Some found \<Rightarrow>
                  (case (case found of None \<Rightarrow> Some w | Some a \<Rightarrow> release_alloc a w) of
                     None \<Rightarrow> None
                   | Some w1 \<Rightarrow>
                       Some (if snd (get_bb_job parse job_ptr w1)
                             then set_bb_job_state (job_id job_ptr) BB_STATE_COMPLETE
                                    (fst (get_bb_job parse job_ptr w1))
                             else fst (get_bb_job parse job_ptr w1))))
         | None \<Rightarrow>
             (case bb_find_name_rec (Some (dec_string (unat (sa_job_id args)))) (sa_user_id args) w of
                None \<Rightarrow> None
              | Some found \<Rightarrow>
                  (case found of None \<Rightarrow> Some w | Some a \<Rightarrow> release_alloc a w))))"

section \<open>The reconciliation loop: \<^verbatim>\<open>_load_state\<close>, \<^verbatim>\<open>_timeout_bb_rec\<close> and \<^verbatim>\<open>_bb_agent\<close>\<close>


record bb_sessions =
  s_id :: u32
  token :: "string option"
  used :: bool
  s_user_id :: u32

record bb_instances =
  i_id :: u32
  bytes :: u32
  label :: "string option"

text \<open>Lines 1003-1008 and 791-792: a name that starts with a digit is a job id.\<close>

definition job_id_of_name :: "string option \<Rightarrow> u32 \<Rightarrow> u32" where
  "job_id_of_name nm old =
     (case nm of
        None \<Rightarrow> old
      | Some [] \<Rightarrow> old
      | Some (c # cs) \<Rightarrow> if is_digit c then strtol_u32 (c # cs) else old)"

text \<open>
  \<^verbatim>\<open>_pick_alloc_account\<close> (lines 833-888) for the record at address \<open>a\<close>: the walk of lines
  842-853 for another record of the same user, in the user's bucket.
\<close>

fun find_other :: "nat \<Rightarrow> u32 \<Rightarrow> (nat \<rightharpoonup> bb_alloc) \<Rightarrow> nat list \<Rightarrow> bb_alloc option option" where
  "find_other a uid h [] = Some None"
| "find_other a uid h (b # bs) =
     (case h b of
        None \<Rightarrow> None
      | Some r \<Rightarrow> if b \<noteq> a \<and> ba_user_id r = uid then Some (Some r) else find_other a uid h bs)"

text \<open>
  Lines 855-887 set the partition to the default partition, and the account and the QOS to
  what the association manager returns for the user; a field whose lookup fails keeps its
  value. The default partition and the two lookups (\<open>None\<close> for a lookup that fails) are
  the parameter \<open>defaults\<close>.
\<close>

type_synonym user_defaults = "u32 \<Rightarrow> string option \<times> string option option \<times> string option option"

definition pick_alloc_account :: "user_defaults \<Rightarrow> nat \<Rightarrow> world \<Rightarrow> world option" where
  "pick_alloc_account defaults a w =
     (case heap w a of
        None \<Rightarrow> None
      | Some r \<Rightarrow>
          (case find_other a (ba_user_id r) (heap w) (bb_ahash w (bucket w (ba_user_id r))) of
             None \<Rightarrow> None
           | Some (Some r') \<Rightarrow>
               Some (w\<lparr>heap := (heap w)(a \<mapsto> r\<lparr>ba_account := ba_account r',
                    ba_partition := ba_partition r', ba_qos := ba_qos r'\<rparr>)\<rparr>)
           | Some None \<Rightarrow>
               (case defaults (ba_user_id r) of
                  (part, acct, q) \<Rightarrow>
                    Some (w\<lparr>heap := (heap w)(a \<mapsto> r\<lparr>
                         ba_account := (case acct of None \<Rightarrow> ba_account r | Some v \<Rightarrow> v),
                         ba_partition := part,
                         ba_qos := (case q of None \<Rightarrow> ba_qos r | Some v \<Rightarrow> v)\<rparr>)\<rparr>))))"

text \<open>Lines 1010-1011: the size of the last instance, if there is an instance.\<close>

definition instances_size :: "bb_instances list \<Rightarrow> u64 \<Rightarrow> u64" where
  "instances_size instances old = (if instances = [] then old else ucast (bytes (last instances)))"

text \<open>Lines 1000-1019: a session that is not in the registry gets a record.\<close>

definition add_session_rec :: "user_defaults \<Rightarrow> time_t \<Rightarrow> bool \<Rightarrow> bb_instances list \<Rightarrow> bb_sessions \<Rightarrow> world \<Rightarrow> world option" where
  "add_session_rec defaults now init_config instances s w =
     (case bb_alloc_name_rec now (token s) (s_user_id s) w of
        (w1, a) \<Rightarrow>
          (case heap w1 a of
             None \<Rightarrow> None
           | Some r \<Rightarrow>
               let r1 = r\<lparr>ba_job_id := job_id_of_name (token s) (ba_job_id r),
                          ba_size := instances_size instances (ba_size r),
                          ba_seen_time := last_load_time w1\<rparr>;
                   w2 = w1\<lparr>heap := (heap w1)(a \<mapsto> r1)\<rparr>
               in if init_config then Some w2
                  else
                    (case pick_alloc_account defaults a w2 of
                       None \<Rightarrow> None
                     | Some w3 \<Rightarrow>
                         (case heap w3 a of
                            None \<Rightarrow> None
                          | Some r3 \<Rightarrow>
                              Some (bb_limit_add (ba_user_id r3) (ba_account r3) (ba_partition r3)
                                      (ba_qos r3) (ba_size r3) w3)))))"

text \<open>Lines 987-1020, one iteration.\<close>

definition load_session :: "user_defaults \<Rightarrow> time_t \<Rightarrow> bool \<Rightarrow> bb_instances list \<Rightarrow> bb_sessions \<Rightarrow> world \<Rightarrow> world option" where
  "load_session defaults now init_config instances s w =
     (if init_config then add_session_rec defaults now init_config instances s w
      else
        (case bb_find_name_rec (token s) (s_user_id s) w of
           None \<Rightarrow> None
         | Some (Some a) \<Rightarrow>
             (case heap w a of
                None \<Rightarrow> None
              | Some r \<Rightarrow> Some (w\<lparr>heap := (heap w)(a \<mapsto> r\<lparr>ba_seen_time := last_load_time w\<rparr>)\<rparr>))
         | Some None \<Rightarrow> add_session_rec defaults now init_config instances s w))"





text \<open>
  The tests of lines 1955 and 1973-1975 for one record: its last-seen time is earlier
  than the last load, or it is COMPLETE and its job is gone or pending again.
\<close>

definition rec_stale :: "time_t \<Rightarrow> bb_alloc \<Rightarrow> bool" where
  "rec_stale llt r \<longleftrightarrow> ba_seen_time r <s llt"







section \<open>The durable snapshot: \<^verbatim>\<open>_save_limits_state\<close> and \<^verbatim>\<open>_recover_limit_state\<close>\<close>

text \<open>
  Modelled from the spec: the pack and unpack primitives of \<^verbatim>\<open>pack.c\<close> are not among the
  sources. A buffer is the sequence of the values packed into it (section 6: a versioned
  record list of account, creation time, name, partition, QOS, owning user and, in
  emulation mode, size). An unpack primitive takes the next value if it is of its kind and
  fails otherwise, which is the jump to \<^verbatim>\<open>unpack_error\<close> of the \<^verbatim>\<open>safe_unpack\<close> macros.
\<close>

datatype pack_item = P16 u16 | P32 u32 | P64 u64 | PTime time_t | PStr "string option"

definition unpack16 :: "pack_item list \<Rightarrow> (u16 \<times> pack_item list) option" where
  "unpack16 buf = (case buf of P16 v # rest \<Rightarrow> Some (v, rest) | _ \<Rightarrow> None)"

definition unpack32 :: "pack_item list \<Rightarrow> (u32 \<times> pack_item list) option" where
  "unpack32 buf = (case buf of P32 v # rest \<Rightarrow> Some (v, rest) | _ \<Rightarrow> None)"

definition unpack64 :: "pack_item list \<Rightarrow> (u64 \<times> pack_item list) option" where
  "unpack64 buf = (case buf of P64 v # rest \<Rightarrow> Some (v, rest) | _ \<Rightarrow> None)"

definition unpack_time :: "pack_item list \<Rightarrow> (time_t \<times> pack_item list) option" where
  "unpack_time buf = (case buf of PTime v # rest \<Rightarrow> Some (v, rest) | _ \<Rightarrow> None)"

definition unpackstr :: "pack_item list \<Rightarrow> (string option \<times> pack_item list) option" where
  "unpackstr buf = (case buf of PStr v # rest \<Rightarrow> Some (v, rest) | _ \<Rightarrow> None)"

text \<open>Lines 623-630: the values packed for one record; \<open>emu\<close> is the emulation flag.\<close>

definition pack_rec :: "bool \<Rightarrow> bb_alloc \<Rightarrow> pack_item list" where
  "pack_rec emu r =
     [PStr (ba_account r), PTime (ba_create_time r), PStr (ba_name r), PStr (ba_partition r),
      PStr (ba_qos r), P32 (ba_user_id r)] @ (if emu then [P64 (ba_size r)] else [])"

text \<open>
  The records that the walk of lines 619-636 packs: those with a name, bucket by bucket,
  each chain from its head. Following a link to an address that holds no record is
  undefined behaviour (\<open>None\<close>).
\<close>

definition named_recs :: "world \<Rightarrow> bb_alloc list option" where
  "named_recs w =
     (case deref_all (heap w) (all_chain_addrs w) of
        None \<Rightarrow> None
      | Some recs \<Rightarrow> Some (filter (\<lambda>r. ba_name r \<noteq> None) (map snd recs)))"

text \<open>
  The buffer that \<^verbatim>\<open>_save_limits_state\<close> builds (lines 612-641): the protocol version, the
  number of records, which is counted in a \<^verbatim>\<open>uint32_t\<close> and written over its placeholder
  after the walk, and the records. \<^verbatim>\<open>SLURM_15_08_PROTOCOL_VERSION\<close> is defined outside the
  file: it is the parameter \<open>protocol_version\<close>. The test of line 608, which decides
  whether a snapshot is written at all, and the transfer of the buffer to the state file
  (lines 643-692) are not modelled.
\<close>

definition save_limits_state :: "u16 \<Rightarrow> world \<Rightarrow> pack_item list option" where
  "save_limits_state protocol_version w =
     (case named_recs w of
        None \<Rightarrow> None
      | Some rs \<Rightarrow>
          Some ([P16 protocol_version, P32 (word_of_nat (length rs))]
                @ concat (map (pack_rec (emulate_cray (cfg w))) rs)))"

text \<open>
  The local variables of \<^verbatim>\<open>_recover_limit_state\<close> that one iteration of the loop of lines
  779-808 unpacks (lines 780-787). \<^verbatim>\<open>size\<close> is unpacked, and read, in emulation mode only.
\<close>

record limit_rec =
  lr_account :: "string option"
  lr_create_time :: time_t
  lr_name :: "string option"
  lr_partition :: "string option"
  lr_qos :: "string option"
  lr_user_id :: u32
  lr_size :: u64

definition unpack_rec :: "bool \<Rightarrow> pack_item list \<Rightarrow> (limit_rec \<times> pack_item list) option" where
  "unpack_rec emu buf =
     (case unpackstr buf of None \<Rightarrow> None | Some (acct, b1) \<Rightarrow>
     (case unpack_time b1 of None \<Rightarrow> None | Some (ct, b2) \<Rightarrow>
     (case unpackstr b2 of None \<Rightarrow> None | Some (nm, b3) \<Rightarrow>
     (case unpackstr b3 of None \<Rightarrow> None | Some (part, b4) \<Rightarrow>
     (case unpackstr b4 of None \<Rightarrow> None | Some (q, b5) \<Rightarrow>
     (case unpack32 b5 of None \<Rightarrow> None | Some (uid, b6) \<Rightarrow>
        if emu
        then (case unpack64 b6 of
                None \<Rightarrow> None
              | Some (sz, b7) \<Rightarrow>
                  Some (\<lparr>lr_account = acct, lr_create_time = ct, lr_name = nm,
                          lr_partition = part, lr_qos = q, lr_user_id = uid, lr_size = sz\<rparr>, b7))
        else Some (\<lparr>lr_account = acct, lr_create_time = ct, lr_name = nm,
                     lr_partition = part, lr_qos = q, lr_user_id = uid, lr_size = 0\<rparr>, b6)))))))"

text \<open>
  Lines 789-803: in emulation mode a record is created for the name and the user; otherwise
  the record of that name and user is looked up in the registry. The record, if there is
  one, gets the account, the creation time, the partition and the QOS of the snapshot.
  \<open>None\<close> is undefined behaviour in the walk of the registry.
\<close>

definition restore_rec :: "time_t \<Rightarrow> limit_rec \<Rightarrow> world \<Rightarrow> world option" where
  "restore_rec now f w =
     (if emulate_cray (cfg w) then
        (case bb_alloc_name_rec now (lr_name f) (lr_user_id f) w of
           (w1, a) \<Rightarrow>
             (case heap w1 a of
                None \<Rightarrow> None
              | Some r \<Rightarrow>
                  Some (w1\<lparr>heap := (heap w1)(a \<mapsto> r\<lparr>
                     ba_job_id := job_id_of_name (lr_name f) (ba_job_id r),
                     ba_seen_time := now, ba_size := lr_size f,
                     ba_account := lr_account f, ba_create_time := lr_create_time f,
                     ba_partition := lr_partition f, ba_qos := lr_qos f\<rparr>)\<rparr>)))
      else
        (case bb_find_name_rec (lr_name f) (lr_user_id f) w of
           None \<Rightarrow> None
         | Some None \<Rightarrow> Some w
         | Some (Some a) \<Rightarrow>
             (case heap w a of
                None \<Rightarrow> None
              | Some r \<Rightarrow>
                  Some (w\<lparr>heap := (heap w)(a \<mapsto> r\<lparr>
                     ba_account := lr_account f, ba_create_time := lr_create_time f,
                     ba_partition := lr_partition f, ba_qos := lr_qos f\<rparr>)\<rparr>))))"

text \<open>
  The loop of lines 779-808 for \<open>n\<close> more records. The result says whether the loop has
  run to its end (\<open>True\<close>) or has left through \<^verbatim>\<open>unpack_error\<close>, which keeps what the
  iterations before have restored.
\<close>

fun recover_loop :: "time_t \<Rightarrow> nat \<Rightarrow> pack_item list \<Rightarrow> world \<Rightarrow> (bool \<times> world) option" where
  "recover_loop now 0 buf w = Some (True, w)"
| "recover_loop now (Suc n) buf w =
     (case unpack_rec (emulate_cray (cfg w)) buf of
        None \<Rightarrow> Some (False, w)
      | Some (f, buf') \<Rightarrow>
          (case restore_rec now f w of
             None \<Rightarrow> None
           | Some w1 \<Rightarrow> recover_loop now n buf' w1))"

text \<open>
  \<^verbatim>\<open>_recover_limit_state\<close> (lines 728-828) from line 769 on, for the buffer \<open>buf\<close> that has
  been read from the state file; \<open>now\<close> is the value of \<^verbatim>\<open>time(NULL)\<close>.
\<close>

definition recover_limit_state :: "time_t \<Rightarrow> pack_item list \<Rightarrow> world \<Rightarrow> (bool \<times> world) option" where
  "recover_limit_state now buf w =
     (case unpack16 buf of
        None \<Rightarrow> Some (False, w)
      | Some (protocol_version, b1) \<Rightarrow>
          if protocol_version = 0xfffe then Some (False, w)
          else
            (case unpack32 b1 of
               None \<Rightarrow> Some (False, w)
             | Some (rec_count, b2) \<Rightarrow> recover_loop now (unat rec_count) b2 w))"

section \<open>Concrete states of the lifecycle\<close>

text \<open>
  Job 7 of user 1 asks for two persistent buffers, \<open>scratch1\<close> of 10 units and
  \<open>scratch2\<close> of 20 units. Both create operations have been started: the sub-requests are
  ALLOCATING, the job is ALLOCATING, and both sizes have been added to the limits.
\<close>

definition ex_buf1 :: bb_buf where
  "ex_buf1 = \<lparr>buf_access = None, buf_destroy = False, buf_hurry = False, buf_name = ''scratch1'',
     buf_size = 10, buf_state = BB_STATE_ALLOCATING, buf_type = None\<rparr>"

definition ex_buf2 :: bb_buf where
  "ex_buf2 = \<lparr>buf_access = None, buf_destroy = False, buf_hurry = False, buf_name = ''scratch2'',
     buf_size = 20, buf_state = BB_STATE_ALLOCATING, buf_type = None\<rparr>"

definition ex_bb_job_persist :: bb_job where
  "ex_bb_job_persist = ex_bb_job\<lparr>bj_buf_ptr := [ex_buf1, ex_buf2], bj_persist_add := 30,
     bj_state := BB_STATE_ALLOCATING, bj_total_size := 0\<rparr>"

definition ex_world_persist :: world where
  "ex_world_persist = ex_world\<lparr>bb_jhash := [7 \<mapsto> ex_bb_job_persist], jobs := [7 \<mapsto> ex_job],
     limit_log := [LimitAdd 1 None None None 10, LimitAdd 1 None None None 20]\<rparr>"

definition ex_create_args :: create_buf_data where
  "ex_create_args = \<lparr>cb_access = None, cb_hurry = False, cb_job_id = 7, cb_job_script = None,
     cb_name = ''scratch1'', cb_size = 10, cb_type = None, cb_user_id = 1\<rparr>"

text \<open>Results of the tool: a failure with exit status 1, a failure whose response is the
  benign one of teardown, a success, and the success of a create operation.\<close>

definition ex_res_failed :: tool_result where
  "ex_res_failed = \<lparr>status = Exited 1, resp_msg = Some ''internal error''\<rparr>"

definition ex_res_not_found :: tool_result where
  "ex_res_not_found = \<lparr>status = Exited 1, resp_msg = Some ''token not found''\<rparr>"

definition ex_res_ok :: tool_result where
  "ex_res_ok = \<lparr>status = Exited 0, resp_msg = Some ''''\<rparr>"

definition ex_res_created :: tool_result where
  "ex_res_created = \<lparr>status = Exited 0, resp_msg = Some ''created''\<rparr>"

text \<open>
  Job 9 of user 2, the owner of the buffer at address 1 of \<open>ex_world_full\<close>, is known to
  the scheduler and is staging out; its descriptor is in the job descriptor cache.
\<close>

definition ex_job9 :: job_record where
  "ex_job9 = \<lparr>job_id = 9, user_id = 2, start_time = 500, burst_buffer = Some ''SLURM_JOB=SIZE=50'',
     account = None, part_name = None, qos_name = None, job_pending = False, priority = 1,
     state_reason = WAIT_NO_REASON, state_desc = None\<rparr>"

definition ex_bb_job9 :: bb_job where
  "ex_bb_job9 = \<lparr>bj_account = None, bj_buf_ptr = [], bj_gres_ptr = [], bj_job_id = 9,
     bj_partition = None, bj_persist_add = 0, bj_qos = None, bj_state = BB_STATE_STAGING_OUT,
     bj_swap_size = 0, bj_swap_nodes = 0, bj_total_size = 50, bj_user_id = 0\<rparr>"

definition ex_world_stage :: world where
  "ex_world_stage = ex_world_full\<lparr>bb_jhash := [9 \<mapsto> ex_bb_job9], jobs := [9 \<mapsto> ex_job9]\<rparr>"

definition ex_stage_args :: stage_args where
  "ex_stage_args = \<lparr>sa_job_id = 9, sa_timeout = 0, sa_user_id = 2\<rparr>"

text \<open>
  The state in which the teardown of job 9 runs: the stage-out of time 600 has succeeded,
  so that the buffer record and the descriptor are in state TEARDOWN and the teardown
  has been queued.
\<close>

definition ex_world_teardown :: world where
  "ex_world_teardown = ex_world_stage\<lparr>
     heap := [1 \<mapsto> ex_alloc\<lparr>ba_state := BB_STATE_TEARDOWN, ba_state_time := 600\<rparr>],
     bb_jhash := [9 \<mapsto> ex_bb_job9\<lparr>bj_state := BB_STATE_TEARDOWN\<rparr>],
     spawned := [Teardown 9 2 False]\<rparr>"

text \<open>
  An instance of the parse of \<^verbatim>\<open>_get_bb_job\<close> for a request that consists of the single
  token \<^verbatim>\<open>SLURM_JOB=SIZE=\<close> followed by digits (lines 425-461): a pending descriptor
  with the job's id, account, partition and QOS and with that size (a plain number is
  taken as that many units; these lines do not set the user id of the descriptor). The
  jobs of the examples carry requests of this form.
\<close>

definition ex_parse :: "job_record \<Rightarrow> bb_job option" where
  "ex_parse job_ptr =
     (case burst_buffer job_ptr of
        None \<Rightarrow> None
      | Some s \<Rightarrow>
          if is_prefix ''SLURM_JOB=SIZE='' s \<and> drop 15 s \<noteq> [] \<and> list_all is_digit (drop 15 s)
          then Some \<lparr>bj_account = account job_ptr, bj_buf_ptr = [], bj_gres_ptr = [],
                 bj_job_id = job_id job_ptr, bj_partition = part_name job_ptr,
                 bj_persist_add = 0, bj_qos = qos_name job_ptr, bj_state = BB_STATE_PENDING,
                 bj_swap_size = 0, bj_swap_nodes = 0,
                 bj_total_size = word_of_nat (strtol_digits (drop 15 s) 0), bj_user_id = 0\<rparr>
          else None)"

section \<open>Concrete states of the reconciliation loop and of the snapshot\<close>

text \<open>
  The persistent buffer \<open>scratch1\<close> of user 2, of 50 units, is the only record of the
  registry; the inventory of time 60 has listed it. The tool then reports one pool, the
  default pool \<open>bytes\<close> of 100 units: at time 90 with 50 units free and the session of the
  buffer, at time 120 with all units free and no session.
\<close>

definition ex_persist :: bb_alloc where
  "ex_persist = \<lparr>ba_account = Some ''acct'', ba_cancelled = False, ba_create_time = 50,
     ba_end_time = 0, ba_gres_ptr = [], ba_job_id = 0, ba_name = Some ''scratch1'',
     ba_partition = Some ''debug'', ba_qos = Some ''normal'', ba_seen_time = 60, ba_size = 50,
     ba_state = BB_STATE_ALLOCATED, ba_state_time = 50, ba_use_time = 0, ba_user_id = 2\<rparr>"









text \<open>
  A registry with two persistent buffers, \<open>scratch1\<close> of user 2 and \<open>scratch2\<close> of user 3,
  and its snapshot. After a restart at time 200 the inventory has given the registry a
  record for each of the two sessions, without account, partition and QOS.
\<close>

definition ex_persist2 :: bb_alloc where
  "ex_persist2 = \<lparr>ba_account = Some ''other'', ba_cancelled = False, ba_create_time = 70,
     ba_end_time = 0, ba_gres_ptr = [], ba_job_id = 0, ba_name = Some ''scratch2'',
     ba_partition = None, ba_qos = Some ''high'', ba_seen_time = 90, ba_size = 20,
     ba_state = BB_STATE_ALLOCATED, ba_state_time = 70, ba_use_time = 0, ba_user_id = 3\<rparr>"

definition ex_world_snap :: world where
  "ex_world_snap = ex_world\<lparr>used_space := 70, last_load_time := 90,
     bb_ahash := (\<lambda>i. if i = 0 then [1] else if i = 1 then [2] else []),
     heap := [1 \<mapsto> ex_persist, 2 \<mapsto> ex_persist2], next_addr := 3\<rparr>"

definition ex_snapshot :: "pack_item list" where
  "ex_snapshot = [P16 7168, P32 2,
     PStr (Some ''acct''), PTime 50, PStr (Some ''scratch1''), PStr (Some ''debug''),
     PStr (Some ''normal''), P32 2,
     PStr (Some ''other''), PTime 70, PStr (Some ''scratch2''), PStr None,
     PStr (Some ''high''), P32 3]"

definition ex_fresh1 :: bb_alloc where
  "ex_fresh1 = zero_alloc\<lparr>ba_name := Some ''scratch1'', ba_seen_time := 200, ba_size := 50,
     ba_state := BB_STATE_ALLOCATED, ba_state_time := 200, ba_user_id := 2\<rparr>"

definition ex_fresh2 :: bb_alloc where
  "ex_fresh2 = zero_alloc\<lparr>ba_name := Some ''scratch2'', ba_seen_time := 200, ba_size := 50,
     ba_state := BB_STATE_ALLOCATED, ba_state_time := 200, ba_user_id := 3\<rparr>"

definition ex_world_restart :: world where
  "ex_world_restart = ex_world\<lparr>used_space := 70, last_load_time := 200,
     bb_ahash := (\<lambda>i. if i = 0 then [2] else if i = 1 then [1] else []),
     heap := [1 \<mapsto> ex_fresh2, 2 \<mapsto> ex_fresh1], next_addr := 3\<rparr>"

definition ex_world_recovered :: world where
  "ex_world_recovered = ex_world_restart\<lparr>heap :=
     [1 \<mapsto> ex_fresh2\<lparr>ba_account := Some ''other'', ba_create_time := 70, ba_partition := None,
             ba_qos := Some ''high''\<rparr>,
      2 \<mapsto> ex_fresh1\<lparr>ba_account := Some ''acct'', ba_create_time := 50,
             ba_partition := Some ''debug'', ba_qos := Some ''normal''\<rparr>]\<rparr>"

section \<open>Relations between the states before and after a pass\<close>


text \<open>
  Notions for the round trip of the snapshot: the key under which the registry looks a
  named record up; the fields of a record that the snapshot carries; the local variables
  that an iteration of the recovery unpacks from the values packed for a record; and a
  registry whose chains link records only, all of them allocated before \<open>next_addr\<close>.
\<close>

definition rec_key :: "bb_alloc \<Rightarrow> string option \<times> u32" where
  "rec_key r = (ba_name r, ba_user_id r)"

definition restored :: "bb_alloc \<Rightarrow> bb_alloc \<Rightarrow> bool" where
  "restored r r' \<longleftrightarrow>
     ba_account r' = ba_account r \<and> ba_partition r' = ba_partition r \<and> ba_qos r' = ba_qos r
     \<and> ba_name r' = ba_name r \<and> ba_user_id r' = ba_user_id r
     \<and> ba_create_time r' = ba_create_time r"

definition limit_rec_of :: "bool \<Rightarrow> bb_alloc \<Rightarrow> limit_rec" where
  "limit_rec_of emu r =
     \<lparr>lr_account = ba_account r, lr_create_time = ba_create_time r, lr_name = ba_name r,
      lr_partition = ba_partition r, lr_qos = ba_qos r, lr_user_id = ba_user_id r,
      lr_size = (if emu then ba_size r else 0)\<rparr>"

definition registry_linked :: "world \<Rightarrow> bool" where
  "registry_linked w \<longleftrightarrow> (\<forall>i. \<forall>a\<in>set (bb_ahash w i). heap w a \<noteq> None \<and> a < next_addr w)"

text \<open>
  What the recovery of the snapshot records \<open>rs\<close> makes of a registry \<open>w\<close>: the record
  that the registry finds for the key of a snapshot record carries the fields of the
  snapshot; in emulation mode there is such a record; lookups under other keys, and the
  records they find, are as before.
\<close>

definition recovered :: "bb_alloc list \<Rightarrow> world \<Rightarrow> world \<Rightarrow> bool" where
  "recovered rs w w' \<longleftrightarrow>
     registry_linked w' \<and> cfg w' = cfg w \<and> hash_size w' = hash_size w
     \<and> (\<forall>r\<in>set rs. \<forall>a. bb_find_name_rec (ba_name r) (ba_user_id r) w' = Some (Some a)
            \<longrightarrow> (\<exists>r'. heap w' a = Some r' \<and> restored r r'))
     \<and> (emulate_cray (cfg w)
            \<longrightarrow> (\<forall>r\<in>set rs. \<exists>a. bb_find_name_rec (ba_name r) (ba_user_id r) w' = Some (Some a)))
     \<and> (\<not> emulate_cray (cfg w)
            \<longrightarrow> (\<forall>nm uid. bb_find_name_rec nm uid w' = bb_find_name_rec nm uid w))
     \<and> (\<forall>nm uid. (nm, uid) \<notin> rec_key ` set rs
            \<longrightarrow> bb_find_name_rec nm uid w' = bb_find_name_rec nm uid w
                \<and> (\<forall>a. bb_find_name_rec nm uid w = Some (Some a) \<longrightarrow> heap w' a = heap w a))"

section \<open>Properties of the admission test\<close>

lemmas ex_defs = ex_env_def ex_cfg_def ex_pool_def ex_world_def ex_job_def ex_bb_job_def
  ex_alloc_def ex_world_full_def ex_granularity_def ex_bb_job_nodes_def ex_bb_job_3_def
  ex_world_pool_def ex_world_full_pool_def ex_env_over_def

lemmas tsl_defs = test_size_limit_def add_space_of_def total_space_needed_def
  user_space_needed_def resv_space_of_def NO_VAL64_def gres_needed_total_def
  all_chain_addrs_def scan_init_def is_candidate_def word_sle_eq word_sless_alt
  needs_left_def preempt_step_def do_preempt_rec_def queue_teardown_def limit_ok_def

subsection \<open>The loop over the requested generic resources\<close>

lemma scan_gres_ok:
  "fst (scan_gres gran cf nm resv gs) \<longleftrightarrow> list_all (gres_admissible gran cf) gs"
  by (induction gs)
    (auto simp: gres_admissible_def rounded_count_def Let_def split: option.splits prod.splits)

lemma scan_gres_needed:
  "fst (scan_gres gran cf nm resv gs) \<Longrightarrow>
   map add_cnt (snd (snd (scan_gres gran cf nm resv gs))) = map (gres_deficit gran cf nm resv) gs"
  by (induction gs)
    (auto simp: gres_deficit_def rounded_count_def Let_def split: option.splits prod.splits)

lemma scan_gres_length:
  "fst (scan_gres gran cf nm resv gs) \<Longrightarrow>
   length (snd (snd (scan_gres gran cf nm resv gs))) = length gs"
  by (induction gs) (auto simp: Let_def split: option.splits prod.splits)

lemma scan_gres_counts:
  "fst (snd (scan_gres gran cf nm resv gs)) = rounded_gres gran cf gs"
  by (induction gs)
    (auto simp: rounded_gres_def gres_admissible_def round_gres_def rounded_count_def Let_def
      split: option.splits prod.splits)

lemma rounded_gres_all:
  "list_all (gres_admissible gran cf) gs \<Longrightarrow> rounded_gres gran cf gs = map (round_gres gran cf) gs"
  by (induction gs) (auto simp: rounded_gres_def)

subsection \<open>Sums of deficits without overflow\<close>

lemma unat_sum_list:
  fixes ds :: "u64 list"
  shows "sum_list (map unat ds) < 2 ^ 63 \<Longrightarrow> unat (sum_list ds) = sum_list (map unat ds)"
proof (induction ds)
  case Nil
  then show ?case by simp
next
  case (Cons d ds)
  then have a: "unat (sum_list ds) = sum_list (map unat ds)" by simp
  have "unat d + unat (sum_list ds) < 2 ^ LENGTH(64)" using Cons.prems a by simp
  then have "unat (d + sum_list ds) = unat d + unat (sum_list ds)"
    by (rule unat_add_lem[THEN iffD1])
  then show ?case using a by simp
qed

lemma sle_zero_small:
  fixes x :: u64
  assumes "unat x < 2 ^ 63"
  shows "x \<le>s 0 \<longleftrightarrow> x = 0"
proof -
  have "int (unat x) < int (2 ^ 63)" using assms by (simp only: of_nat_less_iff)
  then have u: "uint x < 2 ^ 63" by simp
  have "sint x = signed_take_bit (LENGTH(64) - Suc 0) (uint x)"
    by (rule sint_uint)
  also have "\<dots> = uint x"
  proof -
    have "- (2 ^ 63) \<le> uint x" by (rule order_trans[of _ 0]) simp_all
    moreover have "uint x < 2 ^ 63" by (rule u)
    ultimately have "signed_take_bit 63 (uint x) = uint x"
      by (rule signed_take_bit_int_eq_self)
    then show ?thesis by simp
  qed
  finally have "sint x = uint x" .
  then show ?thesis
    by (auto simp: word_sle_eq word_uint_eq_iff order_antisym_conv)
qed

lemma sum_deficits_sle_zero:
  fixes ds :: "u64 list"
  assumes "sum_list (map unat ds) < 2 ^ 63"
  shows "sum_list ds \<le>s 0 \<longleftrightarrow> (\<forall>d\<in>set ds. d = 0)"
proof -
  have u: "unat (sum_list ds) = sum_list (map unat ds)" by (rule unat_sum_list[OF assms])
  then have "sum_list ds \<le>s 0 \<longleftrightarrow> sum_list ds = 0"
    using assms by (simp add: sle_zero_small)
  also have "\<dots> \<longleftrightarrow> sum_list (map unat ds) = 0"
    using u by (metis unat_eq_0)
  also have "\<dots> \<longleftrightarrow> (\<forall>d\<in>set ds. d = 0)"
    by (auto simp: unat_eq_0)
  finally show ?thesis .
qed

subsection \<open>When the test admits\<close>

lemma tsl_limit_fail:
  "\<not> limit_ok e job_ptr bb_job \<Longrightarrow> test_size_limit e job_ptr bb_job w = Some (1, bb_job, w)"
  by (simp add: test_size_limit_def limit_ok_def add_space_of_def)

lemma tsl_admit_iff:
  "map_option fst (test_size_limit e job_ptr bb_job w) = Some 0 \<longleftrightarrow>
     limit_ok e job_ptr bb_job \<and> gres_all_admissible e w bb_job
     \<and> total_space_needed e bb_job w \<le>s 0 \<and> user_space_needed job_ptr bb_job w \<le>s 0
     \<and> sum_list (gres_deficits e w bb_job) \<le>s 0"
proof (cases "limit_ok e job_ptr bb_job")
  case False
  then show ?thesis by (simp add: tsl_limit_fail)
next
  case True
  obtain ok gs' nd where sg: "scan_gres (bb_granularity e) (gres_ptr (cfg w)) (bb_name w)
      (job_test_bb_resv e) (bj_gres_ptr bb_job) = (ok, gs', nd)"
    by (cases "scan_gres (bb_granularity e) (gres_ptr (cfg w)) (bb_name w)
      (job_test_bb_resv e) (bj_gres_ptr bb_job)") auto
  have ok: "ok = gres_all_admissible e w bb_job"
    using scan_gres_ok[of "bb_granularity e" "gres_ptr (cfg w)" "bb_name w"
        "job_test_bb_resv e" "bj_gres_ptr bb_job"] sg
    by (simp add: gres_all_admissible_def)
  have nd: "ok \<Longrightarrow> gres_needed_total nd = sum_list (gres_deficits e w bb_job)"
    using scan_gres_needed[of "bb_granularity e" "gres_ptr (cfg w)" "bb_name w"
        "job_test_bb_resv e" "bj_gres_ptr bb_job"] sg
    by (simp add: gres_deficits_def gres_needed_total_def)
  show ?thesis
  proof (cases ok)
    case False
    then show ?thesis using True sg ok
      by (simp add: test_size_limit_def limit_ok_def Let_def)
  next
    case ok': True
    show ?thesis using True sg ok ok' nd
      by (auto simp add: test_size_limit_def limit_ok_def Let_def split: option.splits)
  qed
qed

text \<open>
  C1, as stated, fails. Job 7 asks for 10 units of space and one \<open>nodes\<close>, and no pool
  is configured: the limit test passes, the total-space deficit is negative, the per-user
  deficit is zero and the only generic-resource deficit is zero, yet the test returns 1.
\<close>

theorem admit_needs_known_gres_counterexample:
  "limit_ok ex_env ex_job ex_bb_job_nodes
   \<and> total_space_needed ex_env ex_bb_job_nodes ex_world \<le>s 0
   \<and> user_space_needed ex_job ex_bb_job_nodes ex_world \<le>s 0
   \<and> gres_deficits ex_env ex_world ex_bb_job_nodes = [0]
   \<and> test_size_limit ex_env ex_job ex_bb_job_nodes ex_world = Some (1, ex_bb_job_nodes, ex_world)"
  by (simp add: tsl_defs ex_defs gres_deficits_def gres_deficit_def)

text \<open>
  C1 (amended). The admission test returns 0 (ADMIT) exactly when the limit test passes,
  every requested generic resource names a configured pool whose configured count is not
  exceeded by the rounded request, and the total-space deficit, the per-user space deficit
  and the sum of the generic-resource deficits are all at most zero. When the limit test
  fails, it returns 1 and leaves the job descriptor and the state as they were: neither
  capacity nor candidates are looked at. Where the deficits add up without overflow, their
  sum is at most zero exactly when every deficit is zero.
\<close>

theorem admit_iff_limits_and_deficits:
  "(map_option fst (test_size_limit e job_ptr bb_job w) = Some 0 \<longleftrightarrow>
      limit_ok e job_ptr bb_job \<and> gres_all_admissible e w bb_job
      \<and> total_space_needed e bb_job w \<le>s 0 \<and> user_space_needed job_ptr bb_job w \<le>s 0
      \<and> sum_list (gres_deficits e w bb_job) \<le>s 0)
   \<and> (\<not> limit_ok e job_ptr bb_job \<longrightarrow>
        test_size_limit e job_ptr bb_job w = Some (1, bb_job, w))
   \<and> (sum_list (map unat (gres_deficits e w bb_job)) < 2 ^ 63 \<longrightarrow>
        (sum_list (gres_deficits e w bb_job) \<le>s 0 \<longleftrightarrow> (\<forall>d\<in>set (gres_deficits e w bb_job). d = 0)))"
  using tsl_admit_iff[of e job_ptr bb_job w] tsl_limit_fail[of e job_ptr bb_job w]
    sum_deficits_sle_zero[of "gres_deficits e w bb_job"]
  by blast

theorem admit_iff_limits_and_deficits_witness:
  "map_option fst (test_size_limit ex_env ex_job ex_bb_job_3 ex_world_pool) = Some 0
   \<and> gres_deficits ex_env ex_world_pool ex_bb_job_3 = [0]
   \<and> test_size_limit ex_env_over ex_job ex_bb_job_3 ex_world_pool
       = Some (1, ex_bb_job_3, ex_world_pool)"
proof -
  have a: "limit_ok ex_env ex_job ex_bb_job_3" by (simp add: tsl_defs ex_defs)
  have b: "gres_all_admissible ex_env ex_world_pool ex_bb_job_3"
    by (simp add: gres_all_admissible_def gres_admissible_def rounded_count_def ex_defs)
  have c: "total_space_needed ex_env ex_bb_job_3 ex_world_pool \<le>s 0"
    by (simp add: tsl_defs ex_defs)
  have d: "user_space_needed ex_job ex_bb_job_3 ex_world_pool \<le>s 0"
    by (simp add: tsl_defs ex_defs)
  have f: "gres_deficits ex_env ex_world_pool ex_bb_job_3 = [0]"
    by (simp add: gres_deficits_def gres_deficit_def rounded_count_def get_bb_resv_def
        word_sless_alt ex_defs)
  have g: "\<not> limit_ok ex_env_over ex_job ex_bb_job_3" by (simp add: tsl_defs ex_defs)
  show ?thesis
    using admit_iff_limits_and_deficits[of ex_env ex_job ex_bb_job_3 ex_world_pool]
      admit_iff_limits_and_deficits[of ex_env_over ex_job ex_bb_job_3 ex_world_pool]
      a b c d f g
    by simp
qed

subsection \<open>What the test writes into the job descriptor\<close>

lemma tsl_bb_job:
  assumes "test_size_limit e job_ptr bb_job w = Some (rc, bb_job', w')"
      and "limit_ok e job_ptr bb_job"
  shows "bb_job' = bb_job\<lparr>bj_gres_ptr :=
           rounded_gres (bb_granularity e) (gres_ptr (cfg w)) (bj_gres_ptr bb_job)\<rparr>"
    and "rc \<noteq> 1 \<Longrightarrow> gres_all_admissible e w bb_job"
proof -
  obtain ok gs' nd where sg: "scan_gres (bb_granularity e) (gres_ptr (cfg w)) (bb_name w)
      (job_test_bb_resv e) (bj_gres_ptr bb_job) = (ok, gs', nd)"
    by (cases "scan_gres (bb_granularity e) (gres_ptr (cfg w)) (bb_name w)
      (job_test_bb_resv e) (bj_gres_ptr bb_job)") auto
  have ok: "ok = gres_all_admissible e w bb_job"
    using scan_gres_ok[of "bb_granularity e" "gres_ptr (cfg w)" "bb_name w"
        "job_test_bb_resv e" "bj_gres_ptr bb_job"] sg
    by (simp add: gres_all_admissible_def)
  have gs: "gs' = rounded_gres (bb_granularity e) (gres_ptr (cfg w)) (bj_gres_ptr bb_job)"
    using scan_gres_counts[of "bb_granularity e" "gres_ptr (cfg w)" "bb_name w"
        "job_test_bb_resv e" "bj_gres_ptr bb_job"] sg by simp
  show "bb_job' = bb_job\<lparr>bj_gres_ptr :=
           rounded_gres (bb_granularity e) (gres_ptr (cfg w)) (bj_gres_ptr bb_job)\<rparr>"
    using assms sg gs
    by (auto simp: test_size_limit_def limit_ok_def Let_def split: if_splits option.splits)
  show "rc \<noteq> 1 \<Longrightarrow> gres_all_admissible e w bb_job"
    using assms sg ok
    by (auto simp: test_size_limit_def limit_ok_def Let_def split: if_splits option.splits)
qed

text \<open>
  C10, as stated, fails. A pool \<open>nodes\<close> with granularity 2 is configured and the job
  asks for 3 of them, which rounds to 4; the limit test fails, the test returns 1, and
  the cached request still says 3.
\<close>

theorem gres_rounded_every_call_counterexample:
  "find_gres ''nodes'' (gres_ptr (cfg ex_world_pool)) = Some ex_pool
   \<and> rounded_count (bb_granularity ex_env_over) ex_pool \<lparr>bg_name = ''nodes'', bg_count = 3\<rparr> = 4
   \<and> bj_gres_ptr ex_bb_job_3 = [\<lparr>bg_name = ''nodes'', bg_count = 3\<rparr>]
   \<and> test_size_limit ex_env_over ex_job ex_bb_job_3 ex_world_pool
       = Some (1, ex_bb_job_3, ex_world_pool)"
  by (simp add: tsl_defs ex_defs rounded_count_def)

text \<open>
  C10 (amended). The admission test writes to the cached job descriptor, and to nothing
  else in it than the request counts. In a call whose limit test passes, the requests are
  visited in order up to and including the first one that names no configured pool or
  whose rounded count exceeds the pool's configured count; each visited request that names
  a configured pool has its count overwritten with the rounded value, also when the call
  returns 1 or 2. A call that returns 0 or 2 has visited, and rounded, every request. A
  call whose limit test fails leaves the descriptor as it was.
\<close>

theorem gres_counts_rounded_in_place:
  assumes "test_size_limit e job_ptr bb_job w = Some (rc, bb_job', w')"
  shows "(limit_ok e job_ptr bb_job \<longrightarrow>
            bb_job' = bb_job\<lparr>bj_gres_ptr :=
              rounded_gres (bb_granularity e) (gres_ptr (cfg w)) (bj_gres_ptr bb_job)\<rparr>)
       \<and> (rc \<noteq> 1 \<longrightarrow>
            bb_job' = bb_job\<lparr>bj_gres_ptr :=
              map (round_gres (bb_granularity e) (gres_ptr (cfg w))) (bj_gres_ptr bb_job)\<rparr>)
       \<and> (\<not> limit_ok e job_ptr bb_job \<longrightarrow> bb_job' = bb_job)"
proof (cases "limit_ok e job_ptr bb_job")
  case False
  then show ?thesis using assms by (simp add: tsl_limit_fail)
next
  case True
  have a: "bb_job' = bb_job\<lparr>bj_gres_ptr :=
      rounded_gres (bb_granularity e) (gres_ptr (cfg w)) (bj_gres_ptr bb_job)\<rparr>"
    by (rule tsl_bb_job(1)[OF assms True])
  have "rc \<noteq> 1 \<Longrightarrow> rounded_gres (bb_granularity e) (gres_ptr (cfg w)) (bj_gres_ptr bb_job)
      = map (round_gres (bb_granularity e) (gres_ptr (cfg w))) (bj_gres_ptr bb_job)"
    using tsl_bb_job(2)[OF assms True]
    by (simp add: gres_all_admissible_def rounded_gres_all)
  then show ?thesis using True a by simp
qed

theorem gres_counts_rounded_in_place_witness:
  "test_size_limit ex_env ex_job ex_bb_job_3 ex_world_full_pool
     = Some (2, ex_bb_job\<lparr>bj_gres_ptr := [\<lparr>bg_name = ''nodes'', bg_count = 4\<rparr>]\<rparr>,
         ex_world_full_pool\<lparr>heap := [1 \<mapsto> mark_preempted 100 ex_alloc],
           spawned := [Teardown 9 2 True]\<rparr>)
   \<and> limit_ok ex_env ex_job ex_bb_job_3
   \<and> ex_bb_job\<lparr>bj_gres_ptr := [\<lparr>bg_name = ''nodes'', bg_count = 4\<rparr>]\<rparr>
       = ex_bb_job_3\<lparr>bj_gres_ptr := map (round_gres (bb_granularity ex_env)
           (gres_ptr (cfg ex_world_full_pool))) (bj_gres_ptr ex_bb_job_3)\<rparr>"
proof -
  have r: "test_size_limit ex_env ex_job ex_bb_job_3 ex_world_full_pool
     = Some (2, ex_bb_job\<lparr>bj_gres_ptr := [\<lparr>bg_name = ''nodes'', bg_count = 4\<rparr>]\<rparr>,
         ex_world_full_pool\<lparr>heap := [1 \<mapsto> mark_preempted 100 ex_alloc],
           spawned := [Teardown 9 2 True]\<rparr>)"
    by (simp add: tsl_defs ex_defs get_bb_resv_def upt_rec)
  have l: "limit_ok ex_env ex_job ex_bb_job_3" by (simp add: tsl_defs ex_defs)
  have "(2::int) \<noteq> 1 \<longrightarrow> ex_bb_job\<lparr>bj_gres_ptr := [\<lparr>bg_name = ''nodes'', bg_count = 4\<rparr>]\<rparr>
       = ex_bb_job_3\<lparr>bj_gres_ptr := map (round_gres (bb_granularity ex_env)
           (gres_ptr (cfg ex_world_full_pool))) (bj_gres_ptr ex_bb_job_3)\<rparr>"
    by (rule conjunct1[OF conjunct2[OF gres_counts_rounded_in_place[OF r]]])
  then have m: "ex_bb_job\<lparr>bj_gres_ptr := [\<lparr>bg_name = ''nodes'', bg_count = 4\<rparr>]\<rparr>
       = ex_bb_job_3\<lparr>bj_gres_ptr := map (round_gres (bb_granularity ex_env)
           (gres_ptr (cfg ex_world_full_pool))) (bj_gres_ptr ex_bb_job_3)\<rparr>"
    by simp
  show ?thesis by (intro conjI r l m)
qed

subsection \<open>Which records the preemption marks\<close>

lemma deref_all_sound:
  "deref_all h as = Some recs \<Longrightarrow> (a, r) \<in> set recs \<Longrightarrow> h a = Some r"
  by (induction as arbitrary: recs) (auto split: option.splits)

lemma candidate_scan_cands:
  assumes "candidate_scan now job_ptr bb_job gn recs acc = Some acc'"
      and "\<forall>(a, r)\<in>set recs. heap w0 a = Some r"
      and "\<forall>p\<in>set (preempt_list acc). candidate_of now job_ptr w0 p"
  shows "\<forall>p\<in>set (preempt_list acc'). candidate_of now job_ptr w0 p"
  using assms
proof (induction recs arbitrary: acc)
  case Nil
  then show ?case by simp
next
  case (Cons x recs)
  obtain a r where x: "x = (a, r)" by (cases x)
  show ?case
  proof (cases "is_candidate now job_ptr r")
    case False
    then show ?thesis using Cons x by simp
  next
    case True
    let ?p = "\<lparr>bb_ptr = a, p_job_id = ba_job_id r, p_size = ba_size r,
                 p_use_time = ba_use_time r, p_user_id = ba_user_id r\<rparr>"
    have cp: "candidate_of now job_ptr w0 ?p"
      using True Cons.prems(2) x by (simp add: candidate_of_def)
    from Cons.prems(1) True x obtain nd' ga' where
      rec: "candidate_scan now job_ptr bb_job gn recs
              \<lparr>preempt_list = ?p # preempt_list acc,
               add_total_space_avail = add_total_space_avail acc + ba_size r,
               add_user_space_avail = add_user_space_avail acc + ba_size r,
               add_total_gres_avail = ga', needed_gres_ptr = nd'\<rparr> = Some acc'"
      by (auto simp: Let_def split: option.splits)
    show ?thesis
      by (rule Cons.IH[OF rec]) (use Cons.prems cp in auto)
  qed
qed

lemma mark_preempted_idem: "mark_preempted now (mark_preempted now r) = mark_preempted now r"
  by (simp add: mark_preempted_def)

lemma preempt_inv_refl: "preempt_inv now job_ptr w w"
  by (simp add: preempt_inv_def)

lemma preempt_inv_heap:
  "preempt_inv now job_ptr w0 w \<Longrightarrow>
   heap w a = heap w0 a
   \<or> (\<exists>r. heap w0 a = Some r \<and> is_candidate now job_ptr r
         \<and> heap w a = Some (mark_preempted now r))"
  by (simp add: preempt_inv_def)

lemma preempt_inv_spawned:
  "preempt_inv now job_ptr w0 w \<Longrightarrow>
   \<exists>ts. spawned w = spawned w0 @ ts
     \<and> (\<forall>t\<in>set ts. \<exists>a r. heap w0 a = Some r \<and> is_candidate now job_ptr r
           \<and> t = Teardown (ba_job_id r) (ba_user_id r) True)"
  by (simp add: preempt_inv_def)

lemma heap_do_preempt_rec [simp]:
  "heap (do_preempt_rec now p r w) = (heap w)(bb_ptr p \<mapsto> mark_preempted now r)"
  by (simp add: do_preempt_rec_def queue_teardown_def)

lemma spawned_do_preempt_rec [simp]:
  "spawned (do_preempt_rec now p r w) = spawned w @ [Teardown (p_job_id p) (p_user_id p) True]"
  by (simp add: do_preempt_rec_def queue_teardown_def)

lemma preempt_inv_step:
  assumes inv: "preempt_inv now job_ptr w0 w"
      and c: "candidate_of now job_ptr w0 p"
      and h: "heap w (bb_ptr p) = Some r"
  shows "preempt_inv now job_ptr w0 (do_preempt_rec now p r w)"
proof -
  from c obtain r0 where r0: "heap w0 (bb_ptr p) = Some r0" "is_candidate now job_ptr r0"
      "p_job_id p = ba_job_id r0" "p_user_id p = ba_user_id r0"
    unfolding candidate_of_def by blast
  from inv have hw: "\<And>a. heap w a = heap w0 a
          \<or> (\<exists>r. heap w0 a = Some r \<and> is_candidate now job_ptr r
                \<and> heap w a = Some (mark_preempted now r))"
    unfolding preempt_inv_def by blast
  have m: "mark_preempted now r = mark_preempted now r0"
    using hw[of "bb_ptr p"] h r0(1) by (auto simp: mark_preempted_idem)
  from inv obtain ts where ts: "spawned w = spawned w0 @ ts"
      "\<forall>t\<in>set ts. \<exists>a r. heap w0 a = Some r \<and> is_candidate now job_ptr r
                \<and> t = Teardown (ba_job_id r) (ba_user_id r) True"
    unfolding preempt_inv_def by blast
  have hp: "heap (do_preempt_rec now p r w) a = heap w0 a
          \<or> (\<exists>r'. heap w0 a = Some r' \<and> is_candidate now job_ptr r'
                \<and> heap (do_preempt_rec now p r w) a = Some (mark_preempted now r'))" for a
  proof (cases "a = bb_ptr p")
    case True
    then show ?thesis using r0 m by simp
  next
    case False
    then show ?thesis using hw[of a] by simp
  qed
  have sp: "spawned (do_preempt_rec now p r w)
      = spawned w0 @ (ts @ [Teardown (ba_job_id r0) (ba_user_id r0) True])"
    using ts(1) r0 by simp
  have st: "\<forall>t\<in>set (ts @ [Teardown (ba_job_id r0) (ba_user_id r0) True]).
      \<exists>a r. heap w0 a = Some r \<and> is_candidate now job_ptr r
                \<and> t = Teardown (ba_job_id r) (ba_user_id r) True"
  proof
    fix t
    assume "t \<in> set (ts @ [Teardown (ba_job_id r0) (ba_user_id r0) True])"
    then consider "t \<in> set ts" | "t = Teardown (ba_job_id r0) (ba_user_id r0) True"
      by auto
    then show "\<exists>a r. heap w0 a = Some r \<and> is_candidate now job_ptr r
                \<and> t = Teardown (ba_job_id r) (ba_user_id r) True"
    proof cases
      case 1
      then show ?thesis using ts(2) by blast
    next
      case 2
      then show ?thesis using r0(1,2) by blast
    qed
  qed
  have A: "\<exists>ts'. spawned (do_preempt_rec now p r w) = spawned w0 @ ts'
      \<and> (\<forall>t\<in>set ts'. \<exists>a r. heap w0 a = Some r \<and> is_candidate now job_ptr r
                \<and> t = Teardown (ba_job_id r) (ba_user_id r) True)"
    by (rule exI[of _ "ts @ [Teardown (ba_job_id r0) (ba_user_id r0) True]"]) (rule conjI[OF sp st])
  have B: "\<forall>a. heap (do_preempt_rec now p r w) a = heap w0 a
          \<or> (\<exists>r'. heap w0 a = Some r' \<and> is_candidate now job_ptr r'
                \<and> heap (do_preempt_rec now p r w) a = Some (mark_preempted now r'))"
    by (intro allI hp)
  show ?thesis unfolding preempt_inv_def by (rule conjI[OF B A])
qed

lemma preempt_loop_inv:
  assumes "preempt_loop now job_ptr ps st w = Some w'"
      and "\<forall>p\<in>set ps. candidate_of now job_ptr w0 p"
      and "preempt_inv now job_ptr w0 w"
  shows "preempt_inv now job_ptr w0 w'"
  using assms
proof (induction ps arbitrary: st w)
  case Nil
  then show ?case by simp
next
  case (Cons p ps)
  show ?case
  proof (cases "needs_left st")
    case False
    then show ?thesis using Cons.prems by simp
  next
    case True
    from Cons.prems(1) True obtain r where r: "heap w (bb_ptr p) = Some r"
      by (cases "heap w (bb_ptr p)") simp_all
    let ?w1 = "if snd (preempt_step job_ptr p r st) then do_preempt_rec now p r w else w"
    have rec: "preempt_loop now job_ptr ps (fst (preempt_step job_ptr p r st)) ?w1 = Some w'"
      using Cons.prems(1) True r by simp
    have cp: "candidate_of now job_ptr w0 p" using Cons.prems(2) by simp
    have cps: "\<forall>p\<in>set ps. candidate_of now job_ptr w0 p" using Cons.prems(2) by simp
    have "preempt_inv now job_ptr w0 ?w1"
      using preempt_inv_step[OF Cons.prems(3) cp r] Cons.prems(3) by simp
    then show ?thesis
      by (rule Cons.IH[OF rec cps])
  qed
qed

lemma tsl_preempt_inv:
  assumes r: "test_size_limit e job_ptr bb_job w = Some (rc, bb_job', w')"
      and srt: "\<And>xs. set (list_sort e xs) \<subseteq> set xs"
  shows "preempt_inv (time_now e) job_ptr w w'"
proof (cases "limit_ok e job_ptr bb_job")
  case False
  then show ?thesis using r by (simp add: tsl_limit_fail preempt_inv_refl)
next
  case True
  obtain ok gs' nd where sg: "scan_gres (bb_granularity e) (gres_ptr (cfg w)) (bb_name w)
      (job_test_bb_resv e) (bj_gres_ptr bb_job) = (ok, gs', nd)"
    by (cases "scan_gres (bb_granularity e) (gres_ptr (cfg w)) (bb_name w)
      (job_test_bb_resv e) (bj_gres_ptr bb_job)") auto
  let ?tn = "total_space_needed e bb_job w"
  let ?un = "user_space_needed job_ptr bb_job w"
  let ?gn = "gres_needed_total nd"
  show ?thesis
  proof (cases "\<not> ok \<or> (?tn \<le>s 0 \<and> ?un \<le>s 0 \<and> ?gn \<le>s 0)")
    case True
    then have "w' = w" using r sg \<open>limit_ok e job_ptr bb_job\<close>
      by (auto simp: test_size_limit_def limit_ok_def Let_def split: if_splits)
    then show ?thesis by (simp add: preempt_inv_refl)
  next
    case False
    from r sg True False obtain recs where
      recs: "deref_all (heap w) (all_chain_addrs w) = Some recs"
      by (auto simp: test_size_limit_def limit_ok_def Let_def split: if_splits option.splits)
    from r sg True False recs obtain acc where
      acc: "candidate_scan (time_now e) job_ptr (bb_job\<lparr>bj_gres_ptr := gs'\<rparr>) ?gn recs
              (scan_init nd) = Some acc"
      by (auto simp: test_size_limit_def limit_ok_def Let_def split: if_splits option.splits)
    have cands: "\<forall>p\<in>set (preempt_list acc). candidate_of (time_now e) job_ptr w p"
      by (rule candidate_scan_cands[OF acc])
        (use deref_all_sound[OF recs] in \<open>auto simp: scan_init_def\<close>)
    show ?thesis
    proof (cases "?tn \<le>s add_total_space_avail acc \<and> ?un \<le>s add_user_space_avail acc
                  \<and> ?gn \<le>s add_total_gres_avail acc")
      case False
      then have "w' = w" using r sg True \<open>\<not> (\<not> ok \<or> (?tn \<le>s 0 \<and> ?un \<le>s 0 \<and> ?gn \<le>s 0))\<close> recs acc
        by (auto simp: test_size_limit_def limit_ok_def Let_def split: if_splits)
      then show ?thesis by (simp add: preempt_inv_refl)
    next
      case fits: True
      have pl: "preempt_loop (time_now e) job_ptr (list_sort e (preempt_list acc))
                  (?tn, ?un, ?gn, needed_gres_ptr acc) w = Some w'"
        using r sg True \<open>\<not> (\<not> ok \<or> (?tn \<le>s 0 \<and> ?un \<le>s 0 \<and> ?gn \<le>s 0))\<close> recs acc fits
        by (auto simp: test_size_limit_def limit_ok_def Let_def split: if_splits option.splits)
      have "\<forall>p\<in>set (list_sort e (preempt_list acc)). candidate_of (time_now e) job_ptr w p"
        using cands srt by blast
      then show ?thesis
        by (rule preempt_loop_inv[OF pl _ preempt_inv_refl])
    qed
  qed
qed

text \<open>
  C3. A call of the admission test changes an allocation record only by marking it for
  teardown (cancelled, state TEARDOWN), and only if the record is job-scoped (its job id
  is not zero) and its use time is strictly later than the requesting job's expected
  start time; every teardown it queues is the hurried teardown of such a record. So no
  allocation of a job with an earlier or equal use time is ever preempted. The sort of the
  candidate list is a parameter and is assumed to return only elements of its argument.
\<close>

theorem preempts_only_later_job_buffers:
  assumes "test_size_limit e job_ptr bb_job w = Some (rc, bb_job', w')"
      and "\<And>xs. set (list_sort e xs) \<subseteq> set xs"
  shows "(\<forall>a. heap w' a \<noteq> heap w a \<longrightarrow>
            (\<exists>r. heap w a = Some r \<and> ba_job_id r \<noteq> 0 \<and> start_time job_ptr <s ba_use_time r
                 \<and> heap w' a = Some (mark_preempted (time_now e) r)))
       \<and> (\<exists>ts. spawned w' = spawned w @ ts
            \<and> (\<forall>t\<in>set ts. \<exists>a r. heap w a = Some r \<and> ba_job_id r \<noteq> 0
                 \<and> start_time job_ptr <s ba_use_time r
                 \<and> t = Teardown (ba_job_id r) (ba_user_id r) True))"
proof -
  have inv: "preempt_inv (time_now e) job_ptr w w'" by (rule tsl_preempt_inv[OF assms])
  have A: "\<forall>a. heap w' a \<noteq> heap w a \<longrightarrow>
            (\<exists>r. heap w a = Some r \<and> ba_job_id r \<noteq> 0 \<and> start_time job_ptr <s ba_use_time r
                 \<and> heap w' a = Some (mark_preempted (time_now e) r))"
  proof (intro allI impI)
    fix a
    assume "heap w' a \<noteq> heap w a"
    with preempt_inv_heap[OF inv, of a] obtain r where
      "heap w a = Some r" "is_candidate (time_now e) job_ptr r"
      "heap w' a = Some (mark_preempted (time_now e) r)" by blast
    then show "\<exists>r. heap w a = Some r \<and> ba_job_id r \<noteq> 0 \<and> start_time job_ptr <s ba_use_time r
                 \<and> heap w' a = Some (mark_preempted (time_now e) r)"
      by (simp add: is_candidate_def)
  qed
  from preempt_inv_spawned[OF inv] obtain ts where
    ts: "spawned w' = spawned w @ ts"
    and tt: "\<forall>t\<in>set ts. \<exists>a r. heap w a = Some r \<and> is_candidate (time_now e) job_ptr r
                \<and> t = Teardown (ba_job_id r) (ba_user_id r) True" by blast
  have "\<forall>t\<in>set ts. \<exists>a r. heap w a = Some r \<and> ba_job_id r \<noteq> 0
                 \<and> start_time job_ptr <s ba_use_time r
                 \<and> t = Teardown (ba_job_id r) (ba_user_id r) True"
  proof
    fix t
    assume "t \<in> set ts"
    with tt obtain a r where "heap w a = Some r" "is_candidate (time_now e) job_ptr r"
      "t = Teardown (ba_job_id r) (ba_user_id r) True" by blast
    then show "\<exists>a r. heap w a = Some r \<and> ba_job_id r \<noteq> 0
                 \<and> start_time job_ptr <s ba_use_time r
                 \<and> t = Teardown (ba_job_id r) (ba_user_id r) True"
      unfolding is_candidate_def by blast
  qed
  with ts have B: "\<exists>ts. spawned w' = spawned w @ ts
            \<and> (\<forall>t\<in>set ts. \<exists>a r. heap w a = Some r \<and> ba_job_id r \<noteq> 0
                 \<and> start_time job_ptr <s ba_use_time r
                 \<and> t = Teardown (ba_job_id r) (ba_user_id r) True)" by blast
  show ?thesis by (rule conjI[OF A B])
qed

theorem preempts_only_later_job_buffers_witness:
  "test_size_limit ex_env ex_job ex_bb_job ex_world_full
     = Some (2, ex_bb_job, ex_world_full\<lparr>heap := [1 \<mapsto> mark_preempted 100 ex_alloc],
          spawned := [Teardown 9 2 True]\<rparr>)
   \<and> heap (ex_world_full\<lparr>heap := [1 \<mapsto> mark_preempted 100 ex_alloc],
          spawned := [Teardown 9 2 True]\<rparr>) 1 \<noteq> heap ex_world_full 1
   \<and> (\<exists>r. heap ex_world_full 1 = Some r \<and> ba_job_id r \<noteq> 0
          \<and> start_time ex_job <s ba_use_time r
          \<and> heap (ex_world_full\<lparr>heap := [1 \<mapsto> mark_preempted 100 ex_alloc],
               spawned := [Teardown 9 2 True]\<rparr>) 1
             = Some (mark_preempted (time_now ex_env) r))"
proof -
  have r: "test_size_limit ex_env ex_job ex_bb_job ex_world_full
     = Some (2, ex_bb_job, ex_world_full\<lparr>heap := [1 \<mapsto> mark_preempted 100 ex_alloc],
          spawned := [Teardown 9 2 True]\<rparr>)"
    by (simp add: tsl_defs ex_defs upt_rec)
  have s: "set (list_sort ex_env xs) \<subseteq> set xs" for xs by (simp add: ex_env_def)
  have d: "heap (ex_world_full\<lparr>heap := [1 \<mapsto> mark_preempted 100 ex_alloc],
          spawned := [Teardown 9 2 True]\<rparr>) 1 \<noteq> heap ex_world_full 1"
    by (simp add: ex_defs mark_preempted_def)
  note c = conjunct1[OF preempts_only_later_job_buffers[OF r s], THEN spec, THEN mp, OF d]
  show ?thesis by (intro conjI r d c)
qed

subsection \<open>The same-user slack of the candidate scan\<close>

lemma scan_user_avail_eq_total:
  "candidate_scan now job_ptr bb_job gn recs acc = Some acc' \<Longrightarrow>
   add_user_space_avail acc' - add_user_space_avail acc
     = add_total_space_avail acc' - add_total_space_avail acc"
proof (induction recs arbitrary: acc)
  case Nil
  then show ?case by simp
next
  case (Cons x recs)
  obtain a r where x: "x = (a, r)" by (cases x)
  show ?case
  proof (cases "is_candidate now job_ptr r")
    case False
    then show ?thesis using Cons x by simp
  next
    case True
    from Cons.prems True x obtain acc1 where
      rec: "candidate_scan now job_ptr bb_job gn recs acc1 = Some acc'"
      and u: "add_user_space_avail acc1 = add_user_space_avail acc + ba_size r"
      and t: "add_total_space_avail acc1 = add_total_space_avail acc + ba_size r"
      by (auto simp: Let_def split: option.splits)
    from Cons.IH[OF rec] u t show ?thesis by simp
  qed
qed

text \<open>
  C2 describes the intent of lines 1840-1841, which the code misses: line 1840 ends in a
  semicolon, so line 1841 adds the size of every candidate to the same-user slack. The
  buffer of job 9 belongs to user 2 and the requesting job to user 1, yet the scan counts
  its 50 units as same-user slack. With a per-user deficit of 3 and a total deficit of 5,
  the test then takes the per-user deficit for coverable and preempts the buffer of user
  2, which cannot reduce what user 1 holds.
\<close>

theorem other_user_counted_in_user_slack:
  "ba_user_id ex_alloc \<noteq> user_id ex_job
   \<and> map_option add_user_space_avail
       (candidate_scan 100 ex_job ex_bb_job 0 [(1, ex_alloc)] (scan_init [])) = Some 50
   \<and> user_space_needed ex_job ex_bb_job ex_world_user_limit = 3
   \<and> total_space_needed ex_env ex_bb_job ex_world_user_limit = 5
   \<and> test_size_limit ex_env ex_job ex_bb_job ex_world_user_limit
       = Some (2, ex_bb_job, ex_world_user_limit\<lparr>heap := [1 \<mapsto> mark_preempted 100 ex_alloc],
           spawned := [Teardown 9 2 True]\<rparr>)"
  by (simp add: tsl_defs ex_defs ex_world_user_limit_def upt_rec)

section \<open>Properties of the lifecycle driver\<close>

lemmas ex2_defs = ex_buf1_def ex_buf2_def ex_bb_job_persist_def ex_world_persist_def
  ex_create_args_def ex_res_failed_def ex_res_not_found_def ex_res_ok_def ex_res_created_def
  ex_job9_def ex_bb_job9_def ex_world_stage_def ex_world_teardown_def ex_stage_args_def

subsection \<open>The job-level state after a sub-request settles\<close>

text \<open>
  C9 states what the job-level state should obey, and the code breaks it. Both
  sub-requests of job 7 are ALLOCATING; the create operation of \<open>scratch1\<close> completes and
  \<^verbatim>\<open>_reset_buf_state\<close> sets it to ALLOCATED. The loop of lines 3477-3486 looks at the
  first sub-request only, finds it settled, and the job is advanced to ALLOCATED while
  \<open>scratch2\<close> is still ALLOCATING.
\<close>

theorem job_allocated_while_buf_allocating:
  "map_option bj_state
     (bb_jhash (reset_buf_state False 1 7 ''scratch1'' BB_STATE_ALLOCATED ex_world_persist) 7)
     = Some BB_STATE_ALLOCATED
   \<and> map_option (map buf_state) (map_option bj_buf_ptr
        (bb_jhash (reset_buf_state False 1 7 ''scratch1'' BB_STATE_ALLOCATED ex_world_persist) 7))
     = Some [BB_STATE_ALLOCATED, BB_STATE_ALLOCATING]"
  by (simp add: reset_buf_state_def ex_defs ex2_defs first_buf_active_def buf_active_def)

subsection \<open>The outcome of a create operation\<close>

lemma create_persistent_not_created:
  "(case resp_msg res of None \<Rightarrow> True | Some m \<Rightarrow> \<not> strstr m ''created'') \<Longrightarrow>
   create_persistent active0 now args res w = w"
  by (auto simp: create_persistent_def split: option.splits)

lemma limit_log_reset_not_pending:
  "new_state \<noteq> BB_STATE_PENDING \<Longrightarrow>
   limit_log (reset_buf_state active0 uid jid nm new_state w) = limit_log w"
  by (simp add: reset_buf_state_def Let_def split: option.splits)

lemma registry_reset_buf_state:
  "heap (reset_buf_state active0 uid jid nm s w) = heap w"
  "bb_ahash (reset_buf_state active0 uid jid nm s w) = bb_ahash w"
  "next_addr (reset_buf_state active0 uid jid nm s w) = next_addr w"
  "hash_size (reset_buf_state active0 uid jid nm s w) = hash_size w"
  by (simp_all add: reset_buf_state_def bb_limit_rem_def Let_def split: option.splits)

lemma create_persistent_created_record:
  assumes "w' = create_persistent_created active0 now args w"
  shows "\<exists>r. heap w' (next_addr w) = Some r \<and> ba_name r = Some (cb_name args)
           \<and> ba_user_id r = cb_user_id args \<and> ba_size r = cb_size args
           \<and> ba_state r = BB_STATE_ALLOCATED"
    and "bb_ahash w' (bucket w (cb_user_id args))
           = next_addr w # bb_ahash w (bucket w (cb_user_id args))"
    and "bb_jhash w' = bb_jhash (reset_buf_state active0 (cb_user_id args) (cb_job_id args)
           (cb_name args) BB_STATE_ALLOCATED w)"
    and "limit_log w' = limit_log w"
  using assms
  by (auto simp: create_persistent_created_def bb_alloc_name_rec_def Let_def bucket_def
      registry_reset_buf_state limit_log_reset_not_pending zero_alloc_def split: option.splits)

lemma find_reset_first_named:
  "find (\<lambda>b. buf_name b = nm) (fst (reset_first_named nm s bufs))
     = map_option (\<lambda>b. b\<lparr>buf_state := s\<rparr>) (find (\<lambda>b. buf_name b = nm) bufs)"
  by (induction bufs) auto

lemma bb_jhash_reset_buf_state:
  "bb_jhash w jid = Some j \<Longrightarrow>
   \<exists>j'. bb_jhash (reset_buf_state active0 uid jid nm s w) jid = Some j'
     \<and> bj_buf_ptr j' = fst (reset_first_named nm s (bj_buf_ptr j))"
  by (simp add: reset_buf_state_def bb_limit_rem_def Let_def split: option.splits)

text \<open>
  C6, as stated, fails. The create operation of \<open>scratch1\<close> exits with status 1 and an
  error text: the state is left as it was, with the sub-request still ALLOCATING and both
  reservations still in the limits.
\<close>

theorem create_failure_keeps_reservation_counterexample:
  "tool_failed (status ex_res_failed)
   \<and> create_persistent False 600 ex_create_args ex_res_failed ex_world_persist = ex_world_persist
   \<and> map_option (map buf_state) (map_option bj_buf_ptr (bb_jhash ex_world_persist 7))
       = Some [BB_STATE_ALLOCATING, BB_STATE_ALLOCATING]
   \<and> limit_log ex_world_persist = [LimitAdd 1 None None None 10, LimitAdd 1 None None None 20]"
  by (simp add: create_persistent_def tool_failed_def ex_defs ex2_defs)

text \<open>
  C6 (amended). When the external-tool call of a persistent-buffer create operation
  returns, its exit status is not examined (line 3545 disables the test): the outcome is
  the same for every exit status. Unless the response text contains \<open>created\<close>, nothing
  changes: the sub-request stays as it is, its reservation stays in the limits and no
  allocation record is created. If the response contains \<open>created\<close>, the first sub-request
  of that name in the job's cached descriptor becomes ALLOCATED, the limits are not
  touched, and an allocation record with the name, the user and the requested size is
  created.
\<close>

theorem create_outcome_ignores_exit_status:
  "create_persistent uninit now args (res\<lparr>status := s\<rparr>) w = create_persistent uninit now args res w
   \<and> ((case resp_msg res of None \<Rightarrow> True | Some m \<Rightarrow> \<not> strstr m ''created'') \<longrightarrow>
        create_persistent uninit now args res w = w)
   \<and> ((case resp_msg res of None \<Rightarrow> False | Some m \<Rightarrow> strstr m ''created'') \<longrightarrow>
        (\<exists>r. heap (create_persistent uninit now args res w) (next_addr w) = Some r
           \<and> ba_name r = Some (cb_name args) \<and> ba_user_id r = cb_user_id args
           \<and> ba_size r = cb_size args \<and> ba_state r = BB_STATE_ALLOCATED)
        \<and> limit_log (create_persistent uninit now args res w) = limit_log w
        \<and> (\<forall>j. bb_jhash w (cb_job_id args) = Some j \<longrightarrow>
             (\<exists>j'. bb_jhash (create_persistent uninit now args res w) (cb_job_id args) = Some j'
                \<and> find (\<lambda>b. buf_name b = cb_name args) (bj_buf_ptr j')
                   = map_option (\<lambda>b. b\<lparr>buf_state := BB_STATE_ALLOCATED\<rparr>)
                       (find (\<lambda>b. buf_name b = cb_name args) (bj_buf_ptr j)))))"
proof (intro conjI impI)
  show "create_persistent uninit now args (res\<lparr>status := s\<rparr>) w
      = create_persistent uninit now args res w"
    by (simp add: create_persistent_def)
next
  assume "case resp_msg res of None \<Rightarrow> True | Some m \<Rightarrow> \<not> strstr m ''created''"
  then show "create_persistent uninit now args res w = w"
    by (rule create_persistent_not_created)
next
  assume c: "case resp_msg res of None \<Rightarrow> False | Some m \<Rightarrow> strstr m ''created''"
  then have e: "create_persistent uninit now args res w = create_persistent_created uninit now args w"
    by (simp add: create_persistent_def)
  show "\<exists>r. heap (create_persistent uninit now args res w) (next_addr w) = Some r
           \<and> ba_name r = Some (cb_name args) \<and> ba_user_id r = cb_user_id args
           \<and> ba_size r = cb_size args \<and> ba_state r = BB_STATE_ALLOCATED"
    using create_persistent_created_record(1)[OF e] .
  show "limit_log (create_persistent uninit now args res w) = limit_log w"
    using create_persistent_created_record(4)[OF e] .
  show "\<forall>j. bb_jhash w (cb_job_id args) = Some j \<longrightarrow>
             (\<exists>j'. bb_jhash (create_persistent uninit now args res w) (cb_job_id args) = Some j'
                \<and> find (\<lambda>b. buf_name b = cb_name args) (bj_buf_ptr j')
                   = map_option (\<lambda>b. b\<lparr>buf_state := BB_STATE_ALLOCATED\<rparr>)
                       (find (\<lambda>b. buf_name b = cb_name args) (bj_buf_ptr j)))"
  proof (intro allI impI)
    fix j
    assume "bb_jhash w (cb_job_id args) = Some j"
    from bb_jhash_reset_buf_state[OF this, of uninit "cb_user_id args" "cb_name args" BB_STATE_ALLOCATED]
    obtain j' where j': "bb_jhash (reset_buf_state uninit (cb_user_id args) (cb_job_id args)
          (cb_name args) BB_STATE_ALLOCATED w) (cb_job_id args) = Some j'"
        "bj_buf_ptr j' = fst (reset_first_named (cb_name args) BB_STATE_ALLOCATED (bj_buf_ptr j))"
      by blast
    have "bb_jhash (create_persistent uninit now args res w) (cb_job_id args) = Some j'"
      using create_persistent_created_record(3)[OF e] j'(1) by simp
    moreover have "find (\<lambda>b. buf_name b = cb_name args) (bj_buf_ptr j')
                   = map_option (\<lambda>b. b\<lparr>buf_state := BB_STATE_ALLOCATED\<rparr>)
                       (find (\<lambda>b. buf_name b = cb_name args) (bj_buf_ptr j))"
      using j'(2) by (simp add: find_reset_first_named)
    ultimately show "\<exists>j'. bb_jhash (create_persistent uninit now args res w) (cb_job_id args) = Some j'
                \<and> find (\<lambda>b. buf_name b = cb_name args) (bj_buf_ptr j')
                   = map_option (\<lambda>b. b\<lparr>buf_state := BB_STATE_ALLOCATED\<rparr>)
                       (find (\<lambda>b. buf_name b = cb_name args) (bj_buf_ptr j))"
      by blast
  qed
qed

theorem create_outcome_ignores_exit_status_witness:
  "create_persistent False 600 ex_create_args ex_res_failed ex_world_persist = ex_world_persist
   \<and> (\<exists>r. heap (create_persistent False 600 ex_create_args ex_res_created ex_world_persist)
              (next_addr ex_world_persist) = Some r
         \<and> ba_name r = Some (cb_name ex_create_args) \<and> ba_user_id r = cb_user_id ex_create_args
         \<and> ba_size r = cb_size ex_create_args \<and> ba_state r = BB_STATE_ALLOCATED)"
proof -
  have a: "case resp_msg ex_res_failed of None \<Rightarrow> True | Some m \<Rightarrow> \<not> strstr m ''created''"
    by (simp add: ex2_defs)
  have b: "case resp_msg ex_res_created of None \<Rightarrow> False | Some m \<Rightarrow> strstr m ''created''"
    by (simp add: ex2_defs)
  note t1 = create_outcome_ignores_exit_status[where uninit = False and now = 600
      and args = ex_create_args and res = ex_res_failed and w = ex_world_persist]
  note t2 = create_outcome_ignores_exit_status[where uninit = False and now = 600
      and args = ex_create_args and res = ex_res_created and w = ex_world_persist]
  have c: "create_persistent False 600 ex_create_args ex_res_failed ex_world_persist = ex_world_persist"
    using t1 a by blast
  have d: "\<exists>r. heap (create_persistent False 600 ex_create_args ex_res_created ex_world_persist)
              (next_addr ex_world_persist) = Some r
         \<and> ba_name r = Some (cb_name ex_create_args) \<and> ba_user_id r = cb_user_id ex_create_args
         \<and> ba_size r = cb_size ex_create_args \<and> ba_state r = BB_STATE_ALLOCATED"
    using t2 b by blast
  show ?thesis by (rule conjI[OF c d])
qed

subsection \<open>The end of stage-out\<close>

lemma find_rec_defined:
  "\<forall>a\<in>set c. h a \<noteq> None \<Longrightarrow> find_rec P h c \<noteq> None"
  by (induction c) (auto split: option.splits)

lemma spawned_get_bb_job [simp]: "spawned (fst (get_bb_job parse job_ptr w)) = spawned w"
  by (simp add: get_bb_job_def split: option.splits)

lemma jobs_get_bb_job [simp]: "jobs (fst (get_bb_job parse job_ptr w)) = jobs w"
  by (simp add: get_bb_job_def split: option.splits)

lemma spawned_set_bb_job_state [simp]: "spawned (set_bb_job_state jid s w) = spawned w"
  by (simp add: set_bb_job_state_def split: option.splits)

lemma jobs_set_bb_job_state [simp]: "jobs (set_bb_job_state jid s w) = jobs w"
  by (simp add: set_bb_job_state_def split: option.splits)

lemma spawned_set_alloc_state [simp]: "spawned (set_alloc_state a s now w) = spawned w"
  by (simp add: set_alloc_state_def split: option.splits)

lemma jobs_set_alloc_state [simp]: "jobs (set_alloc_state a s now w) = jobs w"
  by (simp add: set_alloc_state_def split: option.splits)

lemma spawned_queue_teardown [simp]:
  "spawned (queue_teardown jid uid hurry w) = spawned w @ [Teardown jid uid hurry]"
  by (simp add: queue_teardown_def)

lemma jobs_queue_teardown [simp]: "jobs (queue_teardown jid uid hurry w) = jobs w"
  by (simp add: queue_teardown_def)

text \<open>
  C4, as stated, fails. The data-out call of job 9 exits with status 1: the worker
  records the failure on the job, sets the cached descriptor of the job to TEARDOWN
  (line 1512), leaves the buffer record as it is, and queues no teardown at all.
\<close>

theorem stage_out_failure_queues_teardown_counterexample:
  "stage_out_failed ex_res_failed ex_res_ok
   \<and> spawned ex_world_stage = []
   \<and> start_stage_out ex_parse 600 ex_stage_args ex_res_failed ex_res_ok ex_world_stage
       = Some (ex_world_stage\<lparr>
           bb_jhash := [9 \<mapsto> ex_bb_job9\<lparr>bj_state := BB_STATE_TEARDOWN\<rparr>],
           jobs := [9 \<mapsto> ex_job9\<lparr>state_reason := FAIL_BURST_BUFFER_OP,
             state_desc := Some ''burst_buffer/cray: dws_data_out: internal error''\<rparr>]\<rparr>)"
  by (simp add: start_stage_out_def stage_out_failed_def tool_failed_def bb_find_alloc_rec_def
      bucket_def get_bb_job_def set_bb_job_state_def fail_desc_def plugin_type_def
      ex_defs ex2_defs)

text \<open>
  C4 (amended). When the data-out or the post-run invocation of the stage-out worker exits
  abnormally and the job record still exists, the worker records a failure reason on the
  job (reason FAIL_BURST_BUFFER_OP and a description) and queues no teardown: teardown is
  queued, without hurry, only when both invocations succeed (line 1513). The registry
  walk is assumed to meet no dangling link.
\<close>

theorem stage_out_failure_recorded_no_teardown:
  assumes "jobs w (sa_job_id args) = Some job_ptr"
      and "\<forall>a\<in>set (bb_ahash w (bucket w (user_id job_ptr))). heap w a \<noteq> None"
  shows "\<exists>w'. start_stage_out parse now args r1 r2 w = Some w'
     \<and> (stage_out_failed r1 r2 \<longrightarrow>
          (\<exists>j. jobs w' (sa_job_id args) = Some j \<and> state_reason j = FAIL_BURST_BUFFER_OP
               \<and> state_desc j \<noteq> None)
          \<and> spawned w' = spawned w)
     \<and> (\<not> stage_out_failed r1 r2 \<longrightarrow>
          spawned w' = spawned w @ [Teardown (sa_job_id args) (sa_user_id args) False])"
proof -
  let ?failed = "stage_out_failed r1 r2"
  let ?op = "if tool_failed (status r1) then ''dws_data_out'' else ''dws_post_run''"
  let ?resp = "if tool_failed (status r1) then resp_msg r1 else None"
  let ?j = "if ?failed then job_ptr\<lparr>state_reason := FAIL_BURST_BUFFER_OP,
                state_desc := Some (fail_desc ?op ?resp)\<rparr> else job_ptr"
  let ?w1 = "w\<lparr>jobs := (jobs w)(sa_job_id args \<mapsto> ?j)\<rparr>"
  have u: "user_id ?j = user_id job_ptr" by simp
  have "\<forall>a\<in>set (bb_ahash ?w1 (bucket ?w1 (user_id ?j))). heap ?w1 a \<noteq> None"
    using assms(2) by (simp add: bucket_def)
  then have "bb_find_alloc_rec ?w1 ?j \<noteq> None"
    unfolding bb_find_alloc_rec_def by (rule find_rec_defined)
  then obtain found where f: "bb_find_alloc_rec ?w1 ?j = Some found" by blast
  show ?thesis
    using assms(1) f
    by (cases ?failed; cases found)
      (simp_all add: start_stage_out_def Let_def)
qed

theorem stage_out_failure_recorded_no_teardown_witness:
  "jobs ex_world_stage (sa_job_id ex_stage_args) = Some ex_job9
   \<and> stage_out_failed ex_res_failed ex_res_ok
   \<and> (\<exists>w'. start_stage_out ex_parse 600 ex_stage_args ex_res_failed ex_res_ok ex_world_stage = Some w'
        \<and> (\<exists>j. jobs w' (sa_job_id ex_stage_args) = Some j \<and> state_reason j = FAIL_BURST_BUFFER_OP
               \<and> state_desc j \<noteq> None)
        \<and> spawned w' = spawned ex_world_stage)"
proof -
  have a: "jobs ex_world_stage (sa_job_id ex_stage_args) = Some ex_job9"
    by (simp add: ex_defs ex2_defs)
  have b: "\<forall>a\<in>set (bb_ahash ex_world_stage (bucket ex_world_stage (user_id ex_job9))).
      heap ex_world_stage a \<noteq> None"
    by (simp add: ex_defs ex2_defs bucket_def)
  have c: "stage_out_failed ex_res_failed ex_res_ok"
    by (simp add: stage_out_failed_def tool_failed_def ex2_defs)
  from stage_out_failure_recorded_no_teardown[OF a b, of ex_parse 600 ex_res_failed ex_res_ok] c
  have "\<exists>w'. start_stage_out ex_parse 600 ex_stage_args ex_res_failed ex_res_ok ex_world_stage = Some w'
        \<and> (\<exists>j. jobs w' (sa_job_id ex_stage_args) = Some j \<and> state_reason j = FAIL_BURST_BUFFER_OP
               \<and> state_desc j \<noteq> None)
        \<and> spawned w' = spawned ex_world_stage"
    by blast
  with a c show ?thesis by blast
qed

subsection \<open>The release of the buffer record by teardown\<close>

lemma find_rec_Some:
  "find_rec P h c = Some (Some a) \<Longrightarrow> a \<in> set c \<and> (\<exists>r. h a = Some r \<and> P r)"
  by (induction c) (auto split: option.splits if_splits)

text \<open>
  The first call of \<^verbatim>\<open>bb_free_alloc_rec\<close> on a record that is linked in the bucket of its
  user unlinks and frees it; the second call, on the same pointer, then reads the user id
  of a record that no longer exists.
\<close>

lemma bb_free_alloc_rec_linked:
  assumes "heap w a = Some r" and "a \<in> set (bb_ahash w (bucket w (ba_user_id r)))"
  shows "bb_free_alloc_rec a w
     = Some (w\<lparr>bb_ahash := (bb_ahash w)(bucket w (ba_user_id r)
                  := remove1 a (bb_ahash w (bucket w (ba_user_id r)))),
               heap := (heap w)(a := None)\<rparr>, True)"
  using assms by (simp add: bb_free_alloc_rec_def bb_free_alloc_buf_def Let_def)

lemma bb_free_alloc_rec_freed: "heap w a = None \<Longrightarrow> bb_free_alloc_rec a w = None"
  by (simp add: bb_free_alloc_rec_def)

lemma release_alloc_linked:
  assumes "heap w a = Some r" and "a \<in> set (bb_ahash w (bucket w (ba_user_id r)))"
  shows "release_alloc a w = None"
proof -
  let ?w0 = "bb_limit_rem (ba_user_id r) (ba_account r) (ba_partition r) (ba_qos r) (ba_size r) w"
  have h: "heap ?w0 a = Some r" using assms(1) by (simp add: bb_limit_rem_def)
  have c: "a \<in> set (bb_ahash ?w0 (bucket ?w0 (ba_user_id r)))"
    using assms(2) by (simp add: bb_limit_rem_def bucket_def)
  let ?w1 = "?w0\<lparr>bb_ahash := (bb_ahash ?w0)(bucket ?w0 (ba_user_id r)
                  := remove1 a (bb_ahash ?w0 (bucket ?w0 (ba_user_id r)))),
               heap := (heap ?w0)(a := None)\<rparr>"
  have f1: "bb_free_alloc_rec a ?w0 = Some (?w1, True)"
    by (rule bb_free_alloc_rec_linked[OF h c])
  have f2: "bb_free_alloc_rec a ?w1 = None"
    by (rule bb_free_alloc_rec_freed) simp
  show ?thesis
    unfolding release_alloc_def using assms(1) f1 f2 by simp
qed

text \<open>
  So every teardown whose tool call succeeds or reports \<^verbatim>\<open>token not found\<close>, for a job
  that is known to the scheduler and whose buffer record is found in the registry, runs
  into the read of the freed record.
\<close>

lemma start_teardown_found_undefined:
  assumes "\<not> teardown_failed res"
      and "jobs w (sa_job_id args) = Some job_ptr"
      and "bb_find_alloc_rec w job_ptr = Some (Some a)"
  shows "start_teardown parse args res w = None"
proof -
  from find_rec_Some[OF assms(3)[unfolded bb_find_alloc_rec_def]] obtain r where
    c: "a \<in> set (bb_ahash w (bucket w (user_id job_ptr)))" and h: "heap w a = Some r"
    and u: "ba_user_id r = user_id job_ptr" by blast
  have "release_alloc a w = None"
    using h c u by (intro release_alloc_linked[where r = r]) simp_all
  then show ?thesis
    using assms by (simp add: start_teardown_def)
qed

text \<open>
  The state \<open>ex_world_teardown\<close> is the one that a successful stage-out of job 9 leaves.
\<close>

lemma stage_out_success_example:
  "start_stage_out ex_parse 600 ex_stage_args ex_res_ok ex_res_ok ex_world_stage
     = Some ex_world_teardown"
  by (simp add: start_stage_out_def stage_out_failed_def tool_failed_def bb_find_alloc_rec_def
      bucket_def get_bb_job_def set_bb_job_state_def set_alloc_state_def queue_teardown_def
      ex_defs ex2_defs)

text \<open>
  C5 does not hold of the code. Job 9 of user 2 is known to the scheduler, its buffer of
  50 units is the record at address 1, the head of user 2's bucket, and the teardown tool
  exits with status 0 (or with the benign \<^verbatim>\<open>token not found\<close>). Line 1636 decrements the
  limits, the call of line 1637 unlinks and
  frees the record, and the second call of line 1638 is handed the freed pointer: it has
  no record to read the user id from, and the run of the worker is undefined. The first
  teardown of a buffer already fails to leave the registry in a defined state, so that the
  claim that teardown never corrupts it does not hold.
\<close>

theorem teardown_reads_freed_record:
  "\<not> teardown_failed ex_res_ok
   \<and> jobs ex_world_teardown (sa_job_id ex_stage_args) = Some ex_job9
   \<and> bb_find_alloc_rec ex_world_teardown ex_job9 = Some (Some 1)
   \<and> heap ex_world_teardown 1
       = Some (ex_alloc\<lparr>ba_state := BB_STATE_TEARDOWN, ba_state_time := 600\<rparr>)
   \<and> bb_free_alloc_rec 1 (bb_limit_rem 2 None None None 50 ex_world_teardown)
       = Some (ex_world_teardown\<lparr>bb_ahash := (\<lambda>i. []), heap := Map.empty,
                 limit_log := [LimitRem 2 None None None 50]\<rparr>, True)
   \<and> bb_free_alloc_rec 1 (ex_world_teardown\<lparr>bb_ahash := (\<lambda>i. []), heap := Map.empty,
                 limit_log := [LimitRem 2 None None None 50]\<rparr>) = None
   \<and> release_alloc 1 ex_world_teardown = None
   \<and> start_teardown ex_parse ex_stage_args ex_res_ok ex_world_teardown = None
   \<and> start_teardown ex_parse ex_stage_args ex_res_not_found ex_world_teardown = None"
proof (intro conjI)
  show "\<not> teardown_failed ex_res_ok"
    by (simp add: teardown_failed_def tool_failed_def ex2_defs)
  show "jobs ex_world_teardown (sa_job_id ex_stage_args) = Some ex_job9"
    by (simp add: ex_defs ex2_defs)
  show "bb_find_alloc_rec ex_world_teardown ex_job9 = Some (Some 1)"
    by (simp add: bb_find_alloc_rec_def bucket_def ex_defs ex2_defs)
  show "heap ex_world_teardown 1
       = Some (ex_alloc\<lparr>ba_state := BB_STATE_TEARDOWN, ba_state_time := 600\<rparr>)"
    by (simp add: ex_defs ex2_defs)
  show "bb_free_alloc_rec 1 (bb_limit_rem 2 None None None 50 ex_world_teardown)
       = Some (ex_world_teardown\<lparr>bb_ahash := (\<lambda>i. []), heap := Map.empty,
                 limit_log := [LimitRem 2 None None None 50]\<rparr>, True)"
    by (simp add: bb_free_alloc_rec_def bb_free_alloc_buf_def bb_limit_rem_def bucket_def
        Let_def fun_eq_iff ex_defs ex2_defs)
  show "bb_free_alloc_rec 1 (ex_world_teardown\<lparr>bb_ahash := (\<lambda>i. []), heap := Map.empty,
                 limit_log := [LimitRem 2 None None None 50]\<rparr>) = None"
    by (simp add: bb_free_alloc_rec_def)
  show "release_alloc 1 ex_world_teardown = None"
    by (simp add: release_alloc_def bb_free_alloc_rec_def bb_free_alloc_buf_def
        bb_limit_rem_def bucket_def Let_def ex_defs ex2_defs)
  show "start_teardown ex_parse ex_stage_args ex_res_ok ex_world_teardown = None"
    by (simp add: start_teardown_def teardown_failed_def tool_failed_def release_alloc_def
        bb_find_alloc_rec_def bb_free_alloc_rec_def bb_free_alloc_buf_def
        bb_limit_rem_def bucket_def Let_def ex_defs ex2_defs)
  show "start_teardown ex_parse ex_stage_args ex_res_not_found ex_world_teardown = None"
    by (simp add: start_teardown_def teardown_failed_def tool_failed_def release_alloc_def
        bb_find_alloc_rec_def bb_free_alloc_rec_def bb_free_alloc_buf_def
        bb_limit_rem_def bucket_def Let_def ex_defs ex2_defs)
qed

section \<open>Properties of the reconciliation loop\<close>


subsection \<open>The timeout pass\<close>











subsection \<open>The refresh\<close>







text \<open>The refresh stamps a record that it finds listed with its own time.\<close>

lemma load_session_listed:
  assumes "bb_find_name_rec (token s) (s_user_id s) w = Some (Some a)"
  shows "\<exists>w' r. load_session defaults now False instances s w = Some w' \<and> heap w' a = Some r
     \<and> ba_seen_time r = last_load_time w' \<and> \<not> rec_stale (last_load_time w') r"
proof -
  from find_rec_Some[OF assms[unfolded bb_find_name_rec_def]] obtain r where
    r: "heap w a = Some r" by blast
  show ?thesis using assms r by (simp add: load_session_def rec_stale_def)
qed

subsection \<open>The purge of a record that the inventory no longer lists\<close>







section \<open>Properties of the durable snapshot\<close>

lemmas ex5_defs = ex_persist_def ex_persist2_def ex_world_snap_def ex_snapshot_def
  ex_fresh1_def ex_fresh2_def ex_world_restart_def ex_world_recovered_def zero_alloc_def

subsection \<open>One iteration of the recovery\<close>

lemma unpack_pack_rec:
  "unpack_rec emu (pack_rec emu r @ rest) = Some (limit_rec_of emu r, rest)"
  by (simp add: unpack_rec_def pack_rec_def limit_rec_of_def unpackstr_def unpack_time_def
      unpack32_def unpack64_def)

lemma find_rec_cong:
  "\<forall>a\<in>set c. h' a = h a \<Longrightarrow> find_rec P h' c = find_rec P h c"
  by (induction c) (auto split: option.splits)

lemma find_rec_upd:
  "h a = Some r \<Longrightarrow> P r' = P r \<Longrightarrow> find_rec P (h(a \<mapsto> r')) c = find_rec P h c"
  by (induction c) (auto split: option.splits)

lemma bb_find_name_rec_defined:
  "registry_linked w \<Longrightarrow> bb_find_name_rec nm uid w \<noteq> None"
  unfolding bb_find_name_rec_def registry_linked_def
  by (rule find_rec_defined) simp

lemma bb_find_name_rec_Some:
  assumes "bb_find_name_rec nm uid w = Some (Some a)"
  shows "a \<in> set (bb_ahash w (bucket w uid))
     \<and> (\<exists>r. heap w a = Some r \<and> ba_name r = nm \<and> ba_user_id r = uid)"
  using find_rec_Some[OF assms[unfolded bb_find_name_rec_def]] by blast

text \<open>Without emulation: the record found for the key gets the fields.\<close>

lemma restore_rec_found:
  assumes e: "\<not> emulate_cray (cfg w)" and l: "registry_linked w"
      and f: "bb_find_name_rec (ba_name r) (ba_user_id r) w = Some (Some a)"
      and h: "heap w a = Some ra"
  shows "restore_rec now (limit_rec_of False r) w
     = Some (w\<lparr>heap := (heap w)(a \<mapsto> ra\<lparr>ba_account := ba_account r,
          ba_create_time := ba_create_time r, ba_partition := ba_partition r,
          ba_qos := ba_qos r\<rparr>)\<rparr>)"
  using e f h by (simp add: restore_rec_def limit_rec_of_def)

lemma find_after_update:
  assumes h: "heap w a = Some ra"
      and n: "ba_name ra' = ba_name ra" and u: "ba_user_id ra' = ba_user_id ra"
  shows "bb_find_name_rec nm uid (w\<lparr>heap := (heap w)(a \<mapsto> ra')\<rparr>) = bb_find_name_rec nm uid w"
  unfolding bb_find_name_rec_def using h n u
  by (simp add: bucket_def find_rec_upd)

lemma recovered_step_plain:
  assumes e: "\<not> emulate_cray (cfg w)" and l: "registry_linked w"
  shows "\<exists>w1. restore_rec now (limit_rec_of (emulate_cray (cfg w)) r) w = Some w1
     \<and> recovered [r] w w1"
proof -
  from bb_find_name_rec_defined[OF l] obtain found where
    f: "bb_find_name_rec (ba_name r) (ba_user_id r) w = Some found" by blast
  show ?thesis
  proof (cases found)
    case None
    then have "restore_rec now (limit_rec_of (emulate_cray (cfg w)) r) w = Some w"
      using e f by (simp add: restore_rec_def limit_rec_of_def)
    moreover have "recovered [r] w w"
      using l e f None by (simp add: recovered_def)
    ultimately show ?thesis by blast
  next
    case (Some a)
    from bb_find_name_rec_Some[OF f[unfolded Some]] obtain ra where
      h: "heap w a = Some ra" and n: "ba_name ra = ba_name r" and u: "ba_user_id ra = ba_user_id r"
      by blast
    let ?ra = "ra\<lparr>ba_account := ba_account r, ba_create_time := ba_create_time r,
                 ba_partition := ba_partition r, ba_qos := ba_qos r\<rparr>"
    let ?w1 = "w\<lparr>heap := (heap w)(a \<mapsto> ?ra)\<rparr>"
    have r1: "restore_rec now (limit_rec_of (emulate_cray (cfg w)) r) w = Some ?w1"
      using restore_rec_found[OF e l f[unfolded Some] h] e by simp
    have fa: "\<And>nm uid. bb_find_name_rec nm uid ?w1 = bb_find_name_rec nm uid w"
      by (rule find_after_update[OF h]) simp_all
    have l1: "registry_linked ?w1"
      using l unfolding registry_linked_def by simp
    have own: "\<forall>b. bb_find_name_rec (ba_name r) (ba_user_id r) ?w1 = Some (Some b)
            \<longrightarrow> (\<exists>r'. heap ?w1 b = Some r' \<and> restored r r')"
      using fa f Some n u by (simp add: restored_def)
    have other: "\<forall>nm uid. (nm, uid) \<notin> rec_key ` set [r]
            \<longrightarrow> bb_find_name_rec nm uid ?w1 = bb_find_name_rec nm uid w
                \<and> (\<forall>b. bb_find_name_rec nm uid w = Some (Some b) \<longrightarrow> heap ?w1 b = heap w b)"
    proof (intro allI impI conjI)
      fix nm uid b
      assume k: "(nm, uid) \<notin> rec_key ` set [r]"
      show "bb_find_name_rec nm uid ?w1 = bb_find_name_rec nm uid w" by (rule fa)
      assume "bb_find_name_rec nm uid w = Some (Some b)"
      from bb_find_name_rec_Some[OF this] obtain rb where
        "heap w b = Some rb" "ba_name rb = nm" "ba_user_id rb = uid" by blast
      then have "b \<noteq> a" using h n u k by (auto simp add: rec_key_def)
      then show "heap ?w1 b = heap w b" by simp
    qed
    have "recovered [r] w ?w1"
      unfolding recovered_def using l1 own other e fa by simp
    with r1 show ?thesis by blast
  qed
qed

text \<open>With emulation: a record is created for the key at the head of the user's bucket.\<close>

lemma recovered_step_emulate:
  assumes e: "emulate_cray (cfg w)" and l: "registry_linked w"
  shows "\<exists>w1. restore_rec now (limit_rec_of (emulate_cray (cfg w)) r) w = Some w1
     \<and> recovered [r] w w1"
proof -
  let ?a = "next_addr w"
  let ?i = "bucket w (ba_user_id r)"
  let ?r0 = "zero_alloc\<lparr>ba_name := ba_name r, ba_state := BB_STATE_ALLOCATED, ba_state_time := now,
                ba_seen_time := now, ba_user_id := ba_user_id r\<rparr>"
  let ?r1 = "?r0\<lparr>ba_job_id := job_id_of_name (ba_name r) (ba_job_id ?r0),
                ba_seen_time := now, ba_size := ba_size r,
                ba_account := ba_account r, ba_create_time := ba_create_time r,
                ba_partition := ba_partition r, ba_qos := ba_qos r\<rparr>"
  let ?w1 = "w\<lparr>heap := (heap w)(?a \<mapsto> ?r1),
               bb_ahash := (bb_ahash w)(?i := ?a # bb_ahash w ?i),
               next_addr := Suc ?a\<rparr>"
  have r1: "restore_rec now (limit_rec_of (emulate_cray (cfg w)) r) w = Some ?w1"
    using e by (simp add: restore_rec_def limit_rec_of_def bb_alloc_name_rec_def Let_def)
  have old: "\<And>i b. b \<in> set (bb_ahash w i) \<Longrightarrow> b \<noteq> ?a \<and> heap w b \<noteq> None"
    using l unfolding registry_linked_def by fastforce
  have l1: "registry_linked ?w1"
    unfolding registry_linked_def
  proof (intro allI ballI)
    fix i b assume "b \<in> set (bb_ahash ?w1 i)"
    then have "b = ?a \<or> b \<in> set (bb_ahash w i)" by (auto split: if_splits)
    then show "heap ?w1 b \<noteq> None \<and> b < next_addr ?w1"
    proof
      assume "b = ?a" then show ?thesis by simp
    next
      assume b: "b \<in> set (bb_ahash w i)"
      then have "b < ?a" using l unfolding registry_linked_def by blast
      then show ?thesis using old[OF b] by simp
    qed
  qed
  have chain: "\<And>P i. find_rec P (heap ?w1) (bb_ahash w i) = find_rec P (heap w) (bb_ahash w i)"
    by (rule find_rec_cong) (use old in auto)
  have own_f: "bb_find_name_rec (ba_name r) (ba_user_id r) ?w1 = Some (Some ?a)"
    by (simp add: bb_find_name_rec_def bucket_def)
  have own: "\<forall>b. bb_find_name_rec (ba_name r) (ba_user_id r) ?w1 = Some (Some b)
            \<longrightarrow> (\<exists>r'. heap ?w1 b = Some r' \<and> restored r r')"
    using own_f by (simp add: restored_def)
  have other: "\<forall>nm uid. (nm, uid) \<notin> rec_key ` set [r]
            \<longrightarrow> bb_find_name_rec nm uid ?w1 = bb_find_name_rec nm uid w
                \<and> (\<forall>b. bb_find_name_rec nm uid w = Some (Some b) \<longrightarrow> heap ?w1 b = heap w b)"
  proof (intro allI impI conjI)
    fix nm uid b
    assume k: "(nm, uid) \<notin> rec_key ` set [r]"
    then have ne: "\<not> (ba_name r = nm \<and> ba_user_id r = uid)" by (auto simp add: rec_key_def)
    have "bb_find_name_rec nm uid ?w1
        = find_rec (\<lambda>r. ba_name r = nm \<and> ba_user_id r = uid) (heap ?w1) (bb_ahash w (bucket w uid))"
      using ne by (auto simp add: bb_find_name_rec_def bucket_def)
    then show "bb_find_name_rec nm uid ?w1 = bb_find_name_rec nm uid w"
      using chain by (simp add: bb_find_name_rec_def)
    assume "bb_find_name_rec nm uid w = Some (Some b)"
    from bb_find_name_rec_Some[OF this] have "b \<in> set (bb_ahash w (bucket w uid))" by blast
    then have "b \<noteq> ?a" using old by blast
    then show "heap ?w1 b = heap w b" by simp
  qed
  have "recovered [r] w ?w1"
    unfolding recovered_def using l1 own other e own_f by simp
  with r1 show ?thesis by blast
qed

lemma recovered_step:
  assumes "registry_linked w"
  shows "\<exists>w1. restore_rec now (limit_rec_of (emulate_cray (cfg w)) r) w = Some w1
     \<and> recovered [r] w w1"
  using recovered_step_emulate[OF _ assms] recovered_step_plain[OF _ assms]
  by (cases "emulate_cray (cfg w)") blast+

lemma recovered_nil: "registry_linked w \<Longrightarrow> recovered [] w w"
  by (simp add: recovered_def)

lemma recovered_cons:
  assumes a: "recovered [r] w w1" and b: "recovered rs w1 w2"
      and k: "rec_key r \<notin> rec_key ` set rs"
  shows "recovered (r # rs) w w2"
proof -
  have c: "cfg w1 = cfg w" "hash_size w1 = hash_size w" using a by (simp_all add: recovered_def)
  have l2: "registry_linked w2" "cfg w2 = cfg w" "hash_size w2 = hash_size w"
    using b c by (simp_all add: recovered_def)
  have a_own: "\<And>x. bb_find_name_rec (ba_name r) (ba_user_id r) w1 = Some (Some x)
      \<Longrightarrow> \<exists>r'. heap w1 x = Some r' \<and> restored r r'"
    using a by (simp add: recovered_def)
  have a_ex: "emulate_cray (cfg w) \<Longrightarrow> \<exists>x. bb_find_name_rec (ba_name r) (ba_user_id r) w1 = Some (Some x)"
    using a by (simp add: recovered_def)
  have a_all: "\<And>nm uid. \<not> emulate_cray (cfg w) \<Longrightarrow> bb_find_name_rec nm uid w1 = bb_find_name_rec nm uid w"
    using a by (simp add: recovered_def)
  have a_oth: "\<And>nm uid. (nm, uid) \<noteq> rec_key r
      \<Longrightarrow> bb_find_name_rec nm uid w1 = bb_find_name_rec nm uid w
          \<and> (\<forall>x. bb_find_name_rec nm uid w = Some (Some x) \<longrightarrow> heap w1 x = heap w x)"
    using a by (simp add: recovered_def)
  have b_own: "\<And>r' x. r' \<in> set rs \<Longrightarrow> bb_find_name_rec (ba_name r') (ba_user_id r') w2 = Some (Some x)
      \<Longrightarrow> \<exists>r''. heap w2 x = Some r'' \<and> restored r' r''"
    using b by (simp add: recovered_def)
  have b_ex: "\<And>r'. emulate_cray (cfg w) \<Longrightarrow> r' \<in> set rs
      \<Longrightarrow> \<exists>x. bb_find_name_rec (ba_name r') (ba_user_id r') w2 = Some (Some x)"
    using b c by (simp add: recovered_def)
  have b_all: "\<And>nm uid. \<not> emulate_cray (cfg w) \<Longrightarrow> bb_find_name_rec nm uid w2 = bb_find_name_rec nm uid w1"
    using b c by (simp add: recovered_def)
  have b_oth: "\<And>nm uid. (nm, uid) \<notin> rec_key ` set rs
      \<Longrightarrow> bb_find_name_rec nm uid w2 = bb_find_name_rec nm uid w1
          \<and> (\<forall>x. bb_find_name_rec nm uid w1 = Some (Some x) \<longrightarrow> heap w2 x = heap w1 x)"
    using b by (simp add: recovered_def)
  have kr: "(ba_name r, ba_user_id r) \<notin> rec_key ` set rs" using k by (simp add: rec_key_def)
  have own: "\<forall>r'\<in>set (r # rs). \<forall>x. bb_find_name_rec (ba_name r') (ba_user_id r') w2 = Some (Some x)
            \<longrightarrow> (\<exists>r''. heap w2 x = Some r'' \<and> restored r' r'')"
  proof (intro ballI allI impI)
    fix r' x
    assume m: "r' \<in> set (r # rs)"
      and f: "bb_find_name_rec (ba_name r') (ba_user_id r') w2 = Some (Some x)"
    show "\<exists>r''. heap w2 x = Some r'' \<and> restored r' r''"
    proof (cases "r' \<in> set rs")
      case True
      then show ?thesis using b_own f by blast
    next
      case False
      then have e: "r' = r" using m by simp
      have f1: "bb_find_name_rec (ba_name r) (ba_user_id r) w1 = Some (Some x)"
        using b_oth[OF kr] f e by simp
      then have "heap w2 x = heap w1 x" using b_oth[OF kr] by blast
      then show ?thesis using a_own[OF f1] e by simp
    qed
  qed
  have ex: "emulate_cray (cfg w)
            \<longrightarrow> (\<forall>r'\<in>set (r # rs). \<exists>x. bb_find_name_rec (ba_name r') (ba_user_id r') w2 = Some (Some x))"
  proof (intro impI ballI)
    fix r' assume e: "emulate_cray (cfg w)" and m: "r' \<in> set (r # rs)"
    show "\<exists>x. bb_find_name_rec (ba_name r') (ba_user_id r') w2 = Some (Some x)"
    proof (cases "r' \<in> set rs")
      case True
      then show ?thesis using b_ex[OF e] by blast
    next
      case False
      then have "r' = r" using m by simp
      then show ?thesis using a_ex[OF e] b_oth[OF kr] by simp
    qed
  qed
  have all: "\<not> emulate_cray (cfg w)
            \<longrightarrow> (\<forall>nm uid. bb_find_name_rec nm uid w2 = bb_find_name_rec nm uid w)"
    using a_all b_all by simp
  have oth: "\<forall>nm uid. (nm, uid) \<notin> rec_key ` set (r # rs)
            \<longrightarrow> bb_find_name_rec nm uid w2 = bb_find_name_rec nm uid w
                \<and> (\<forall>x. bb_find_name_rec nm uid w = Some (Some x) \<longrightarrow> heap w2 x = heap w x)"
  proof (intro allI impI)
    fix nm uid
    assume n: "(nm, uid) \<notin> rec_key ` set (r # rs)"
    then have n1: "(nm, uid) \<noteq> rec_key r" and n2: "(nm, uid) \<notin> rec_key ` set rs" by auto
    show "bb_find_name_rec nm uid w2 = bb_find_name_rec nm uid w
                \<and> (\<forall>x. bb_find_name_rec nm uid w = Some (Some x) \<longrightarrow> heap w2 x = heap w x)"
      using a_oth[OF n1] b_oth[OF n2] by simp
  qed
  show ?thesis
    unfolding recovered_def using l2 own ex all oth by blast
qed

lemma recover_loop_recovered:
  "registry_linked w \<Longrightarrow> distinct (map rec_key rs)
     \<Longrightarrow> \<exists>w'. recover_loop now (length rs)
              (concat (map (pack_rec (emulate_cray (cfg w))) rs) @ rest) w = Some (True, w')
          \<and> recovered rs w w'"
proof (induction rs arbitrary: w)
  case Nil
  then show ?case by (simp add: recovered_nil)
next
  case (Cons r rs)
  from recovered_step[OF Cons.prems(1), of now r] obtain w1 where
    s: "restore_rec now (limit_rec_of (emulate_cray (cfg w)) r) w = Some w1"
    and r1: "recovered [r] w w1" by blast
  have l1: "registry_linked w1" and c1: "cfg w1 = cfg w" using r1 by (simp_all add: recovered_def)
  have d: "distinct (map rec_key rs)" and k: "rec_key r \<notin> rec_key ` set rs"
    using Cons.prems(2) by simp_all
  from Cons.IH[OF l1 d] obtain w' where
    lp: "recover_loop now (length rs)
              (concat (map (pack_rec (emulate_cray (cfg w1))) rs) @ rest) w1 = Some (True, w')"
    and r2: "recovered rs w1 w'" by blast
  have "recover_loop now (length (r # rs))
          (concat (map (pack_rec (emulate_cray (cfg w))) (r # rs)) @ rest) w = Some (True, w')"
    using s lp c1 by (simp add: unpack_pack_rec)
  moreover have "recovered (r # rs) w w'" by (rule recovered_cons[OF r1 r2 k])
  ultimately show ?case by blast
qed

subsection \<open>The records of the snapshot\<close>

lemma deref_all_mem:
  "deref_all h as = Some recs \<Longrightarrow> (a, r) \<in> set recs \<longleftrightarrow> a \<in> set as \<and> h a = Some r"
  by (induction as arbitrary: recs) (auto split: option.splits)

lemma named_recs_mem:
  assumes "named_recs w = Some rs"
  shows "r \<in> set rs \<longleftrightarrow>
     (\<exists>i<hash_size w. \<exists>a\<in>set (bb_ahash w i). heap w a = Some r \<and> ba_name r \<noteq> None)"
proof -
  from assms obtain recs where
    d: "deref_all (heap w) (all_chain_addrs w) = Some recs"
    and rs: "rs = filter (\<lambda>r. ba_name r \<noteq> None) (map snd recs)"
    by (auto simp add: named_recs_def split: option.splits)
  have "r \<in> set rs \<longleftrightarrow> (\<exists>a. (a, r) \<in> set recs) \<and> ba_name r \<noteq> None"
    using rs by force
  also have "\<dots> \<longleftrightarrow> (\<exists>a. a \<in> set (all_chain_addrs w) \<and> heap w a = Some r) \<and> ba_name r \<noteq> None"
    using deref_all_mem[OF d] by simp
  also have "\<dots> \<longleftrightarrow> (\<exists>i<hash_size w. \<exists>a\<in>set (bb_ahash w i). heap w a = Some r \<and> ba_name r \<noteq> None)"
    by (simp add: all_chain_addrs_def) (metis atLeastLessThan_iff zero_le)
  finally show ?thesis .
qed

text \<open>The snapshot of the example and its recovery after a restart.\<close>

lemma ex_save:
  "save_limits_state 7168 ex_world_snap = Some ex_snapshot"
  by (simp add: save_limits_state_def named_recs_def all_chain_addrs_def pack_rec_def upt_rec
      ex_defs ex5_defs)

lemma ex_named: "named_recs ex_world_snap = Some [ex_persist, ex_persist2]"
  by (simp add: named_recs_def all_chain_addrs_def upt_rec ex_defs ex5_defs)

lemma ex_restore1:
  "restore_rec 200 (limit_rec_of False ex_persist) ex_world_restart
   = Some (ex_world_restart\<lparr>heap := [1 \<mapsto> ex_fresh2,
        2 \<mapsto> ex_fresh1\<lparr>ba_account := Some ''acct'', ba_create_time := 50,
             ba_partition := Some ''debug'', ba_qos := Some ''normal''\<rparr>]\<rparr>)"
  by (simp add: restore_rec_def limit_rec_of_def bb_find_name_rec_def bucket_def ex_defs ex5_defs)

lemma ex_restore2:
  "restore_rec 200 (limit_rec_of False ex_persist2) (ex_world_restart\<lparr>heap := [1 \<mapsto> ex_fresh2,
        2 \<mapsto> ex_fresh1\<lparr>ba_account := Some ''acct'', ba_create_time := 50,
             ba_partition := Some ''debug'', ba_qos := Some ''normal''\<rparr>]\<rparr>)
   = Some ex_world_recovered"
  by (simp add: restore_rec_def limit_rec_of_def bb_find_name_rec_def bucket_def ex_defs ex5_defs
      fun_upd_twist)

lemma ex_snapshot_packed:
  "ex_snapshot = [P16 7168, P32 2] @ pack_rec False ex_persist @ pack_rec False ex_persist2 @ []"
  by (simp add: pack_rec_def ex5_defs)

lemma ex_recover:
  "recover_limit_state 200 ex_snapshot ex_world_restart = Some (True, ex_world_recovered)"
proof -
  define w1 where "w1 = ex_world_restart\<lparr>heap := [1 \<mapsto> ex_fresh2,
        2 \<mapsto> ex_fresh1\<lparr>ba_account := Some ''acct'', ba_create_time := 50,
             ba_partition := Some ''debug'', ba_qos := Some ''normal''\<rparr>]\<rparr>"
  have e: "\<not> emulate_cray (cfg ex_world_restart)" by (simp add: ex_defs ex5_defs)
  have e1: "\<not> emulate_cray (cfg w1)" by (simp add: w1_def ex_defs ex5_defs)
  have r1: "restore_rec 200 (limit_rec_of False ex_persist) ex_world_restart = Some w1"
    unfolding w1_def by (rule ex_restore1)
  have r2: "restore_rec 200 (limit_rec_of False ex_persist2) w1 = Some ex_world_recovered"
    unfolding w1_def by (rule ex_restore2)
  have two: "(2 :: nat) = Suc (Suc 0)" by simp
  show ?thesis
    unfolding ex_snapshot_packed recover_limit_state_def
    apply (simp add: unpack16_def unpack32_def del: append_Nil2)
    apply (subst two)
    apply (simp add: e e1 unpack_pack_rec r1 r2 del: append_Nil2)
    done
qed

subsection \<open>The round trip\<close>

text \<open>
  C8. Let the snapshot be built from a registry \<open>w\<close> whose named records have pairwise
  different (name, user) keys (the invariant of the Buffer Registry) and number less than
  \<open>2 ^ 32\<close>, with a protocol version other than \<^verbatim>\<open>(uint16_t) NO_VAL\<close>, and let it be read back,
  as it was written, into a registry \<open>w'\<close> with the same emulation flag, whose chains link
  records only. Then the recovery runs to its end, and for every named record of \<open>w\<close> the
  record that the registry then finds under its name and user carries the same account,
  partition, QOS, name and owning user (and creation time). In emulation mode the
  recovery creates that record; otherwise it is the record that \<open>w'\<close> had under the key,
  if there was one.
\<close>

theorem snapshot_round_trip:
  assumes s: "save_limits_state pv w = Some buf"
      and rs: "named_recs w = Some rs"
      and pv: "pv \<noteq> 0xfffe"
      and n: "length rs < 2 ^ 32"
      and d: "distinct (map rec_key rs)"
      and e: "emulate_cray (cfg w') = emulate_cray (cfg w)"
      and l: "registry_linked w'"
  shows "\<exists>w''. recover_limit_state now buf w' = Some (True, w'')
     \<and> (\<forall>i<hash_size w. \<forall>a\<in>set (bb_ahash w i). \<forall>r. heap w a = Some r \<and> ba_name r \<noteq> None \<longrightarrow>
          (\<forall>b. bb_find_name_rec (ba_name r) (ba_user_id r) w'' = Some (Some b) \<longrightarrow>
             (\<exists>r'. heap w'' b = Some r' \<and> ba_account r' = ba_account r
                \<and> ba_partition r' = ba_partition r \<and> ba_qos r' = ba_qos r
                \<and> ba_name r' = ba_name r \<and> ba_user_id r' = ba_user_id r
                \<and> ba_create_time r' = ba_create_time r))
          \<and> (emulate_cray (cfg w) \<longrightarrow>
                (\<exists>b. bb_find_name_rec (ba_name r) (ba_user_id r) w'' = Some (Some b)))
          \<and> (\<not> emulate_cray (cfg w) \<longrightarrow>
                bb_find_name_rec (ba_name r) (ba_user_id r) w''
                  = bb_find_name_rec (ba_name r) (ba_user_id r) w'))"
proof -
  have buf: "buf = [P16 pv, P32 (word_of_nat (length rs))]
                @ concat (map (pack_rec (emulate_cray (cfg w'))) rs) @ []"
    using s rs e by (simp add: save_limits_state_def)
  have cnt: "unat (word_of_nat (length rs) :: u32) = length rs"
    using n by (simp add: unsigned_of_nat take_bit_nat_eq_self)
  from recover_loop_recovered[OF l d, of now "[]"] obtain w'' where
    lp: "recover_loop now (length rs)
           (concat (map (pack_rec (emulate_cray (cfg w'))) rs) @ []) w' = Some (True, w'')"
    and r: "recovered rs w' w''" by blast
  have rc: "recover_limit_state now buf w' = Some (True, w'')"
    unfolding buf using pv lp cnt
    by (simp add: recover_limit_state_def unpack16_def unpack32_def)
  have own: "\<And>r b. r \<in> set rs \<Longrightarrow> bb_find_name_rec (ba_name r) (ba_user_id r) w'' = Some (Some b)
      \<Longrightarrow> \<exists>r'. heap w'' b = Some r' \<and> restored r r'"
    using r by (simp add: recovered_def)
  have ex: "\<And>r. emulate_cray (cfg w) \<Longrightarrow> r \<in> set rs
      \<Longrightarrow> \<exists>b. bb_find_name_rec (ba_name r) (ba_user_id r) w'' = Some (Some b)"
    using r e by (simp add: recovered_def)
  have all: "\<And>nm uid. \<not> emulate_cray (cfg w)
      \<Longrightarrow> bb_find_name_rec nm uid w'' = bb_find_name_rec nm uid w'"
    using r e by (simp add: recovered_def)
  have "\<forall>i<hash_size w. \<forall>a\<in>set (bb_ahash w i). \<forall>r. heap w a = Some r \<and> ba_name r \<noteq> None \<longrightarrow>
          (\<forall>b. bb_find_name_rec (ba_name r) (ba_user_id r) w'' = Some (Some b) \<longrightarrow>
             (\<exists>r'. heap w'' b = Some r' \<and> ba_account r' = ba_account r
                \<and> ba_partition r' = ba_partition r \<and> ba_qos r' = ba_qos r
                \<and> ba_name r' = ba_name r \<and> ba_user_id r' = ba_user_id r
                \<and> ba_create_time r' = ba_create_time r))
          \<and> (emulate_cray (cfg w) \<longrightarrow>
                (\<exists>b. bb_find_name_rec (ba_name r) (ba_user_id r) w'' = Some (Some b)))
          \<and> (\<not> emulate_cray (cfg w) \<longrightarrow>
                bb_find_name_rec (ba_name r) (ba_user_id r) w''
                  = bb_find_name_rec (ba_name r) (ba_user_id r) w')"
  proof (intro allI impI ballI)
    fix i a r
    assume i: "i < hash_size w" and a: "a \<in> set (bb_ahash w i)"
      and h: "heap w a = Some r \<and> ba_name r \<noteq> None"
    have m: "r \<in> set rs" using named_recs_mem[OF rs, of r] i a h by blast
    show "(\<forall>b. bb_find_name_rec (ba_name r) (ba_user_id r) w'' = Some (Some b) \<longrightarrow>
             (\<exists>r'. heap w'' b = Some r' \<and> ba_account r' = ba_account r
                \<and> ba_partition r' = ba_partition r \<and> ba_qos r' = ba_qos r
                \<and> ba_name r' = ba_name r \<and> ba_user_id r' = ba_user_id r
                \<and> ba_create_time r' = ba_create_time r))
          \<and> (emulate_cray (cfg w) \<longrightarrow>
                (\<exists>b. bb_find_name_rec (ba_name r) (ba_user_id r) w'' = Some (Some b)))
          \<and> (\<not> emulate_cray (cfg w) \<longrightarrow>
                bb_find_name_rec (ba_name r) (ba_user_id r) w''
                  = bb_find_name_rec (ba_name r) (ba_user_id r) w')"
      using own[OF m] ex[OF _ m] all unfolding restored_def by blast
  qed
  with rc show ?thesis by blast
qed

theorem snapshot_round_trip_witness:
  "save_limits_state 7168 ex_world_snap = Some ex_snapshot
   \<and> named_recs ex_world_snap = Some [ex_persist, ex_persist2]
   \<and> recover_limit_state 200 ex_snapshot ex_world_restart = Some (True, ex_world_recovered)
   \<and> bb_find_name_rec (Some ''scratch1'') 2 ex_world_recovered = Some (Some 2)
   \<and> (\<exists>r'. heap ex_world_recovered 2 = Some r' \<and> ba_account r' = Some ''acct''
         \<and> ba_partition r' = Some ''debug'' \<and> ba_qos r' = Some ''normal''
         \<and> ba_name r' = Some ''scratch1'' \<and> ba_user_id r' = 2 \<and> ba_create_time r' = 50)"
proof -
  have pv: "(7168 :: u16) \<noteq> 0xfffe" by simp
  have n: "length [ex_persist, ex_persist2] < 2 ^ 32" by simp
  have d: "distinct (map rec_key [ex_persist, ex_persist2])"
    by (simp add: rec_key_def ex5_defs)
  have e: "emulate_cray (cfg ex_world_restart) = emulate_cray (cfg ex_world_snap)"
    by (simp add: ex_defs ex5_defs)
  have l: "registry_linked ex_world_restart"
    by (simp add: registry_linked_def ex_defs ex5_defs)
  have f: "bb_find_name_rec (Some ''scratch1'') 2 ex_world_recovered = Some (Some 2)"
    by (simp add: bb_find_name_rec_def bucket_def ex_defs ex5_defs)
  have p: "0 < hash_size ex_world_snap" "1 \<in> set (bb_ahash ex_world_snap 0)"
    "heap ex_world_snap 1 = Some ex_persist \<and> ba_name ex_persist \<noteq> None"
    by (simp_all add: ex_defs ex5_defs)
  from snapshot_round_trip[OF ex_save ex_named pv n d e l, of 200] ex_recover
  have "\<forall>i<hash_size ex_world_snap. \<forall>a\<in>set (bb_ahash ex_world_snap i). \<forall>r.
          heap ex_world_snap a = Some r \<and> ba_name r \<noteq> None \<longrightarrow>
          (\<forall>b. bb_find_name_rec (ba_name r) (ba_user_id r) ex_world_recovered = Some (Some b) \<longrightarrow>
             (\<exists>r'. heap ex_world_recovered b = Some r' \<and> ba_account r' = ba_account r
                \<and> ba_partition r' = ba_partition r \<and> ba_qos r' = ba_qos r
                \<and> ba_name r' = ba_name r \<and> ba_user_id r' = ba_user_id r
                \<and> ba_create_time r' = ba_create_time r))"
    by auto
  with p have "\<forall>b. bb_find_name_rec (ba_name ex_persist) (ba_user_id ex_persist) ex_world_recovered
        = Some (Some b) \<longrightarrow>
             (\<exists>r'. heap ex_world_recovered b = Some r' \<and> ba_account r' = ba_account ex_persist
                \<and> ba_partition r' = ba_partition ex_persist \<and> ba_qos r' = ba_qos ex_persist
                \<and> ba_name r' = ba_name ex_persist \<and> ba_user_id r' = ba_user_id ex_persist
                \<and> ba_create_time r' = ba_create_time ex_persist)"
    by blast
  moreover have "ba_name ex_persist = Some ''scratch1''" "ba_user_id ex_persist = 2"
    "ba_account ex_persist = Some ''acct''" "ba_partition ex_persist = Some ''debug''"
    "ba_qos ex_persist = Some ''normal''" "ba_create_time ex_persist = 50"
    by (simp_all add: ex5_defs)
  ultimately have "\<exists>r'. heap ex_world_recovered 2 = Some r' \<and> ba_account r' = Some ''acct''
         \<and> ba_partition r' = Some ''debug'' \<and> ba_qos r' = Some ''normal''
         \<and> ba_name r' = Some ''scratch1'' \<and> ba_user_id r' = 2 \<and> ba_create_time r' = 50"
    using f by simp
  with ex_save ex_named ex_recover f show ?thesis by simp
qed

end
